theory Spec2Isabelle
  imports Main "HOL-Library.Sublist"
begin

section \<open>Configuration\<close>

text \<open>
  The module reads its configuration from the environment once, at import time.  The three
  values that influence the behaviour studied here always are strings, because
  \<^verbatim>\<open>os.getenv\<close> is called with a string default for each of them.

  Text is modelled as \<^typ>\<open>string\<close>; a character stands for one code point below 256,
  so \<^const>\<open>length\<close> counts what Python's \<^verbatim>\<open>len\<close> counts on such text.
\<close>

record config =
  VERIFY_TOKEN :: string
  BUSINESS_NAME :: string
  SUPPORT_EMAIL :: string

definition default_config :: config where
  "default_config =
     \<lparr>VERIFY_TOKEN = ''whatsapp_verify_123'',
      BUSINESS_NAME = ''Your Business'',
      SUPPORT_EMAIL = ''support@yourbusiness.com''\<rparr>"

section \<open>The verification handshake\<close>

text \<open>
  \<^verbatim>\<open>verify_webhook\<close> reads three query parameters with \<^verbatim>\<open>request.args.get\<close>, which
  yields \<^verbatim>\<open>None\<close> for an absent parameter and never raises; each one is a
  \<^typ>\<open>string option\<close>.  The view returns a pair of body and status.  The body of the
  accepting branch is the challenge as it was read, so it is optional as well.
\<close>

type_synonym response = "string option \<times> nat"

definition verify_webhook ::
  "config \<Rightarrow> string option \<Rightarrow> string option \<Rightarrow> string option \<Rightarrow> response" where
  "verify_webhook cfg mode token challenge =
     (if mode = Some ''subscribe'' \<and> token = Some (VERIFY_TOKEN cfg)
      then (challenge, 200)
      else (Some ''Forbidden'', 403))"

section \<open>Python text primitives\<close>

text \<open>
  The handlers use a handful of \<^verbatim>\<open>str\<close> methods and the \<^verbatim>\<open>re\<close> module.  They are
  written out here for code points below 256, where the character classes of the
  interpreter are finite tables.
\<close>

definition in_range :: "nat \<Rightarrow> nat \<Rightarrow> char \<Rightarrow> bool" where
  "in_range lo hi c = (lo \<le> of_char c \<and> (of_char c :: nat) \<le> hi)"

definition is_upper :: "char \<Rightarrow> bool" where
  "is_upper c = in_range 65 90 c"

definition is_lower :: "char \<Rightarrow> bool" where
  "is_lower c = in_range 97 122 c"

definition is_digit :: "char \<Rightarrow> bool" where
  "is_digit c = in_range 48 57 c"

text \<open>
  \<^verbatim>\<open>\w\<close> of a \<^verbatim>\<open>str\<close> pattern: the alphanumeric code points and the underscore.  Above
  127 these are the letters, the superscript digits and the vulgar fractions.
\<close>

definition is_word :: "char \<Rightarrow> bool" where
  "is_word c =
     (is_upper c \<or> is_lower c \<or> is_digit c \<or> c = CHR ''_'' \<or>
      of_char c \<in> {170, 178, 179, 181, 185, 186, 188, 189, 190 :: nat} \<or>
      in_range 192 214 c \<or> in_range 216 246 c \<or> in_range 248 255 c)"

text \<open>White space as \<^verbatim>\<open>str.strip\<close> understands it.\<close>

definition py_isspace :: "char \<Rightarrow> bool" where
  "py_isspace c =
     (in_range 9 13 c \<or> in_range 28 32 c \<or> of_char c = (133::nat) \<or> of_char c = (160::nat))"

definition py_strip :: "string \<Rightarrow> string" where
  "py_strip s = rev (dropWhile py_isspace (rev (dropWhile py_isspace s)))"

definition lower_char :: "char \<Rightarrow> char" where
  "lower_char c =
     (if in_range 65 90 c \<or> in_range 192 214 c \<or> in_range 216 222 c
      then char_of (of_char c + (32::nat)) else c)"

definition py_lower :: "string \<Rightarrow> string" where
  "py_lower s = map lower_char s"

text \<open>\<^verbatim>\<open>pat in s\<close>: some suffix of \<open>s\<close> starts with \<open>pat\<close>.\<close>

fun py_in :: "string \<Rightarrow> string \<Rightarrow> bool" where
  "py_in pat [] = (pat = [])"
| "py_in pat (c # cs) = (prefix pat (c # cs) \<or> py_in pat cs)"

text \<open>
  \<^verbatim>\<open>s.replace(pat, '')\<close>: the occurrences of \<open>pat\<close> are removed from left to right,
  without overlap.  With an empty pattern and an empty replacement the text is unchanged.
\<close>

function py_remove :: "string \<Rightarrow> string \<Rightarrow> string" where
  "py_remove pat [] = []"
| "py_remove pat (c # cs) =
     (if pat \<noteq> [] \<and> prefix pat (c # cs)
      then py_remove pat (drop (length pat) (c # cs))
      else c # py_remove pat cs)"
  by pat_completeness auto
termination
  by (relation "measure (\<lambda>(pat, s). length s)") (auto simp: neq_Nil_conv)

section \<open>The email pattern\<close>

text \<open>
  \<^verbatim>\<open>re.search\<close> is a backtracking matcher.  A pattern is a function from the character
  before the current position and the remaining text to the length of the match, if there
  is one; a pattern is built from its last element backwards, each element taking what
  follows it as its continuation.  A greedy repetition first tries to take one more
  character and gives it back only when what follows fails, which is the order in which
  the engine explores the alternatives.
\<close>

type_synonym matcher = "char option \<Rightarrow> string \<Rightarrow> nat option"

definition word_boundary :: "char option \<Rightarrow> string \<Rightarrow> bool" where
  "word_boundary prev rest =
     ((case prev of None \<Rightarrow> False | Some c \<Rightarrow> is_word c) \<noteq>
      (case rest of [] \<Rightarrow> False | c # _ \<Rightarrow> is_word c))"

fun greedy :: "(char \<Rightarrow> bool) \<Rightarrow> nat \<Rightarrow> matcher \<Rightarrow> matcher" where
  "greedy cls m k prev [] = (if m = 0 then k prev [] else None)"
| "greedy cls m k prev (c # cs) =
     (if cls c then
        (case greedy cls (m - 1) k (Some c) cs of
           Some n \<Rightarrow> Some (Suc n)
         | None \<Rightarrow> if m = 0 then k prev (c # cs) else None)
      else if m = 0 then k prev (c # cs) else None)"

definition literal :: "char \<Rightarrow> matcher \<Rightarrow> matcher" where
  "literal x k prev s =
     (case s of
        [] \<Rightarrow> None
      | c # cs \<Rightarrow> if c = x then map_option Suc (k (Some c) cs) else None)"

definition boundary :: "matcher \<Rightarrow> matcher" where
  "boundary k prev s = (if word_boundary prev s then k prev s else None)"

definition accept :: matcher where
  "accept prev s = Some 0"

text \<open>The three character classes of the pattern, as the source writes them.\<close>

definition local_class :: "char \<Rightarrow> bool" where
  "local_class c = (is_upper c \<or> is_lower c \<or> is_digit c \<or> c \<in> set ''._%+-'')"

definition domain_class :: "char \<Rightarrow> bool" where
  "domain_class c = (is_upper c \<or> is_lower c \<or> is_digit c \<or> c \<in> set ''.-'')"

definition tld_class :: "char \<Rightarrow> bool" where
  "tld_class c = (is_upper c \<or> c = CHR ''|'' \<or> is_lower c)"

text \<open>
  \<^verbatim>\<open>\b[A-Za-z0-9._%+-]+@[A-Za-z0-9.-]+\.X{2,}\b\<close>, for a class \<open>X\<close> of the last
  label.
\<close>

definition email_pattern :: "(char \<Rightarrow> bool) \<Rightarrow> matcher" where
  "email_pattern tld =
     boundary (greedy local_class 1 (literal CHR ''@'' (greedy domain_class 1
       (literal CHR ''.'' (greedy tld 2 (boundary accept))))))"

text \<open>\<^verbatim>\<open>re.search\<close> tries the start positions from left to right.\<close>

fun re_search :: "matcher \<Rightarrow> char option \<Rightarrow> string \<Rightarrow> string option" where
  "re_search pat prev [] = map_option (\<lambda>n. []) (pat prev [])"
| "re_search pat prev (c # cs) =
     (case pat prev (c # cs) of
        Some n \<Rightarrow> Some (take n (c # cs))
      | None \<Rightarrow> re_search pat (Some c) cs)"

definition extract_email :: "string \<Rightarrow> string" where
  "extract_email text =
     (case re_search (email_pattern tld_class) None text of
        Some m \<Rightarrow> m
      | None \<Rightarrow> ''Not provided'')"

text \<open>
  The pattern as the specification words it: a top-level domain of at least two letters.
  Only the class of the last label differs from the source's.
\<close>

definition letter_class :: "char \<Rightarrow> bool" where
  "letter_class c = (is_upper c \<or> is_lower c)"

definition spec_extract_email :: "string \<Rightarrow> string" where
  "spec_extract_email text =
     (case re_search (email_pattern letter_class) None text of
        Some m \<Rightarrow> m
      | None \<Rightarrow> ''Not provided'')"

section \<open>Values, exceptions and the outside world\<close>

text \<open>
  An exception is a value.  Only its kind matters here: the handlers never inspect an
  exception, they log it, and \<^verbatim>\<open>handle_message\<close> puts its text into the error body.
  \<open>BadRequest\<close> is what \<^verbatim>\<open>request.get_json\<close> raises on a body it cannot read, and
  \<open>ServiceError\<close> stands for anything raised by a call to a remote service.
\<close>

datatype py_exn =
  AttributeError | KeyError | IndexError | TypeError | ValueError | BadRequest | ServiceError

text \<open>
  A decoded JSON document.  An object is the list of its items, looked up by key.  A
  number is kept as an integer: the handlers only ever test a number for truth, and any
  non-integral number is as true as a non-zero integer.
\<close>

datatype json =
  JNull | JBool bool | JNum int | JStr string | JArr "json list" | JObj "(string \<times> json) list"

record http_response =
  status_code :: nat
  json_body :: "json option"

text \<open>
  The requests this program sends.  A hosted text-generation request is identified by its
  prompt, a send-message request by the sending number id, the recipient and the body.
\<close>

datatype event = HostedPost string | SendPost json json string

type_synonym sheet = "string list list"

text \<open>
  Everything the program does not decide is read from an environment:
  \<^item> the two renderings of \<^verbatim>\<open>datetime.now()\<close>;
  \<^item> for each call to the spreadsheet service of one \<^verbatim>\<open>store_customer_data\<close>, counted
    from 0, whether it raises;
  \<^item> the interpreter's limit on the number of digits of a numeral that \<^verbatim>\<open>int\<close> reads
    or \<^verbatim>\<open>str\<close> writes (4300 unless configured otherwise, 0 for no limit);
  \<^item> the outcome of the POST to the hosted model (an exception, or a response whose
    \<^verbatim>\<open>json()\<close> either raises, \<open>None\<close>, or decodes);
  \<^item> the outcome of the POST to the messaging platform (an exception or a status code);
  \<^item> what \<^verbatim>\<open>str.format\<close> makes of a replacement field other than \<^verbatim>\<open>{name}\<close> and
    \<^verbatim>\<open>{business}\<close>, given the template from that field on;
  \<^item> the text Python prints for a value that is not a string;
  \<^item> what the spreadsheet client does when it is handed a name or a number that is not a
    string: whether the store succeeds, and the sheet afterwards.
\<close>

record env =
  current_date :: string
  current_time :: string
  sheet_fault :: "nat \<Rightarrow> bool"
  max_str_digits :: nat
  hosted_post :: "string \<Rightarrow> py_exn + http_response"
  whatsapp_post :: "json \<Rightarrow> json \<Rightarrow> string \<Rightarrow> py_exn + nat"
  format_other :: "string \<Rightarrow> string \<Rightarrow> string \<Rightarrow> py_exn + string"
  py_str :: "json \<Rightarrow> string"
  store_other :: "sheet \<Rightarrow> json \<Rightarrow> json \<Rightarrow> string \<Rightarrow> string \<Rightarrow> bool \<times> sheet"

text \<open>Applying a function to the result of a step that may have raised.\<close>

definition map_result :: "('a \<Rightarrow> 'b) \<Rightarrow> py_exn + 'a \<Rightarrow> py_exn + 'b" where
  "map_result f r = (case r of Inl exn \<Rightarrow> Inl exn | Inr x \<Rightarrow> Inr (f x))"

section \<open>The reply generator\<close>

text \<open>
  \<^verbatim>\<open>template.format(name=..., business=...)\<close>.  Doubled braces are literal braces, the
  two named fields are replaced by their arguments, which are not scanned again, a closing
  brace on its own and an opening brace that is never closed raise \<^verbatim>\<open>ValueError\<close>.
\<close>

function py_format :: "env \<Rightarrow> string \<Rightarrow> string \<Rightarrow> string \<Rightarrow> py_exn + string" where
  "py_format e [] name business = Inr []"
| "py_format e (c # cs) name business =
     (if prefix ''{{'' (c # cs)
        then map_result ((#) CHR ''{'') (py_format e (drop 2 (c # cs)) name business)
      else if prefix ''}}'' (c # cs)
        then map_result ((#) CHR ''}'') (py_format e (drop 2 (c # cs)) name business)
      else if prefix ''{name}'' (c # cs)
        then map_result ((@) name) (py_format e (drop 6 (c # cs)) name business)
      else if prefix ''{business}'' (c # cs)
        then map_result ((@) business) (py_format e (drop 10 (c # cs)) name business)
      else if c = CHR ''}'' then Inl ValueError
      else if c = CHR ''{'' then
        (if CHR ''}'' \<in> set cs then format_other e (c # cs) name business else Inl ValueError)
      else map_result ((#) c) (py_format e cs name business))"
  by pat_completeness auto
termination
  by (relation "measure (\<lambda>(e, t, n, b). length t)") auto

text \<open>
  The table of \<^verbatim>\<open>get_predefined_response\<close>, in the order in which the dictionary is
  written, which is the order in which the loop visits it.  The last template is an
  f-string: the support address is already part of the template when it is formatted.
\<close>

definition responses :: "config \<Rightarrow> (string \<times> string) list" where
  "responses cfg =
     [(''hello'', ''Hello {name}! Welcome to {business}. How can I help you today?''),
      (''hi'', ''Hi {name}! Thanks for contacting {business}. What can I assist you with?''),
      (''help'', ''I'm here to help! Please tell me what you need assistance with.''),
      (''hours'', ''Our business hours are 9 AM to 6 PM, Monday to Friday.''),
      (''price'',
       ''For pricing information, please let me know which product you're interested in.''),
      (''order'',
       ''I'd be happy to help with your order. Could you provide your order number?''),
      (''support'',
       ''You're talking to our support! For complex issues, email '' @ SUPPORT_EMAIL cfg @
       ''.'')]"

fun first_response :: "(string \<times> string) list \<Rightarrow> string \<Rightarrow> string option" where
  "first_response [] message = None"
| "first_response ((keyword, response) # rest) message =
     (if py_in keyword message then Some response else first_response rest message)"

definition get_predefined_response :: "config \<Rightarrow> string \<Rightarrow> string option" where
  "get_predefined_response cfg message = first_response (responses cfg) message"

definition greeting_fallback :: "config \<Rightarrow> string \<Rightarrow> string" where
  "greeting_fallback cfg customer_name =
     ''Hello '' @ customer_name @ ''! Thank you for contacting '' @ BUSINESS_NAME cfg @
     ''. How can I help you today?''"

definition greeting_error :: "string \<Rightarrow> string" where
  "greeting_error customer_name =
     ''Hi '' @ customer_name @
     ''! Thanks for your message. Our team will get back to you soon!''"

definition make_prompt :: "string \<Rightarrow> string \<Rightarrow> string" where
  "make_prompt message customer_name =
     ''Customer '' @ customer_name @ '' says: '' @ message @
     ''. Reply as helpful customer support:''"

definition dict_get :: "(string \<times> json) list \<Rightarrow> string \<Rightarrow> json \<Rightarrow> json" where
  "dict_get items key dflt = (case map_of items key of None \<Rightarrow> dflt | Some v \<Rightarrow> v)"

text \<open>
  What the function makes of the outcome of its POST.  \<^verbatim>\<open>result[0].get\<close> raises unless
  the first element is an object, and \<^verbatim>\<open>.replace\<close> raises unless the generated text is
  a string.
\<close>

definition generated_reply ::
  "config \<Rightarrow> string \<Rightarrow> string \<Rightarrow> py_exn + http_response \<Rightarrow> py_exn + string" where
  "generated_reply cfg customer_name prompt outcome =
     (case outcome of
        Inl exn \<Rightarrow> Inl exn
      | Inr response \<Rightarrow>
          if status_code response = 200 then
            (case json_body response of
               None \<Rightarrow> Inl ValueError
             | Some (JArr (first # _)) \<Rightarrow>
                 (case first of
                    JObj items \<Rightarrow>
                      (case dict_get items ''generated_text'' (JStr []) of
                         JStr generated_text \<Rightarrow>
                           (let ai_response = py_strip (py_remove prompt generated_text)
                            in if ai_response \<noteq> [] \<and> length ai_response > 10
                               then Inr (take 400 ai_response)
                               else Inr (greeting_fallback cfg customer_name))
                       | _ \<Rightarrow> Inl AttributeError)
                  | _ \<Rightarrow> Inl AttributeError)
             | Some _ \<Rightarrow> Inr (greeting_fallback cfg customer_name))
          else Inr (greeting_fallback cfg customer_name))"

definition hosted_reply ::
  "env \<Rightarrow> config \<Rightarrow> string \<Rightarrow> string \<Rightarrow> (py_exn + string) \<times> event list" where
  "hosted_reply e cfg message customer_name =
     (let prompt = make_prompt message customer_name
      in (generated_reply cfg customer_name prompt (hosted_post e prompt),
          [HostedPost prompt]))"

text \<open>The body of the \<^verbatim>\<open>try\<close>, with the requests it has sent.\<close>

definition ai_response_body ::
  "env \<Rightarrow> config \<Rightarrow> string \<Rightarrow> string \<Rightarrow> (py_exn + string) \<times> event list" where
  "ai_response_body e cfg message customer_name =
     (case get_predefined_response cfg (py_lower message) of
        Some predefined_response \<Rightarrow>
          if predefined_response \<noteq> []
          then (py_format e predefined_response customer_name (BUSINESS_NAME cfg), [])
          else hosted_reply e cfg message customer_name
      | None \<Rightarrow> hosted_reply e cfg message customer_name)"

definition get_ai_response ::
  "env \<Rightarrow> config \<Rightarrow> string \<Rightarrow> string \<Rightarrow> string \<times> event list" where
  "get_ai_response e cfg message customer_name =
     (case ai_response_body e cfg message customer_name of
        (Inr reply, events) \<Rightarrow> (reply, events)
      | (Inl exn, events) \<Rightarrow> (greeting_error customer_name, events))"

section \<open>The message sender\<close>

text \<open>
  Building the URL, the headers and the payload cannot raise; the POST is the only step
  of the \<^verbatim>\<open>try\<close> that can.
\<close>

definition send_whatsapp_message ::
  "env \<Rightarrow> json \<Rightarrow> json \<Rightarrow> string \<Rightarrow> bool \<times> event list" where
  "send_whatsapp_message e phone_number_id to_number message =
     (case whatsapp_post e phone_number_id to_number message of
        Inl exn \<Rightarrow> (False, [SendPost phone_number_id to_number message])
      | Inr status \<Rightarrow> (status = 200, [SendPost phone_number_id to_number message]))"

section \<open>The customer ledger\<close>

text \<open>
  The spreadsheet is a list of rows of cells.  The client library is not part of this
  program; its four calls are modelled by what they do to such a sheet.  Rows and columns
  are counted from 1.  The service returns the rows without their trailing empty cells;
  \<^verbatim>\<open>findall\<close> first pads every row with empty cells to the length of the longest row and
  then lists the cells whose text is the query, row by row; a cell outside the data reads
  as empty; \<^verbatim>\<open>update\<close> of the range \<^verbatim>\<open>A\<close>\<open>r\<close>\<^verbatim>\<open>:G\<close>\<open>r\<close>
  overwrites the first cells of row \<open>r\<close> and keeps the others; \<^verbatim>\<open>append_row\<close> adds a
  row after the last one.  A call that raises leaves the sheet as it was.
\<close>

fun findall_from :: "nat \<Rightarrow> sheet \<Rightarrow> string \<Rightarrow> (nat \<times> nat) list" where
  "findall_from r [] query = []"
| "findall_from r (row # rows) query =
     map (\<lambda>j. (r, Suc j)) (filter (\<lambda>j. row ! j = query) [0..<length row]) @
     findall_from (Suc r) rows query"

definition width :: "sheet \<Rightarrow> nat" where
  "width sh = foldr (\<lambda>row w. max (length row) w) sh 0"

definition fill_gaps :: "sheet \<Rightarrow> sheet" where
  "fill_gaps sh = map (\<lambda>row. row @ replicate (width sh - length row) []) sh"

definition findall :: "sheet \<Rightarrow> string \<Rightarrow> (nat \<times> nat) list" where
  "findall sh query = findall_from 1 (fill_gaps sh) query"

definition cell_value :: "sheet \<Rightarrow> nat \<Rightarrow> nat \<Rightarrow> string" where
  "cell_value sh r c =
     (if 0 < r \<and> r \<le> length sh \<and> 0 < c \<and> c \<le> length (sh ! (r - 1))
      then sh ! (r - 1) ! (c - 1) else [])"

definition update_row :: "sheet \<Rightarrow> nat \<Rightarrow> string list \<Rightarrow> sheet" where
  "update_row sh r vals =
     (if 0 < r \<and> r \<le> length sh
      then sh[r - 1 := vals @ drop (length vals) (sh ! (r - 1))]
      else sh @ replicate (r - 1 - length sh) [] @ [vals])"

definition append_row :: "sheet \<Rightarrow> string list \<Rightarrow> sheet" where
  "append_row sh vals = sh @ [vals]"

text \<open>
  \<^verbatim>\<open>int(s)\<close> for a string: white space around the numeral is dropped, one sign is
  allowed, and the digits may be grouped by single underscores.  \<open>None\<close> is
  \<^verbatim>\<open>ValueError\<close>.  The white space of \<^verbatim>\<open>int\<close> is that of \<^verbatim>\<open>str.strip\<close> without
  the four separators 28 to 31.  A numeral of more than 640 digits that exceeds the
  interpreter's limit raises as well; the limit counts the digits only, not the sign, the
  underscores or the white space.
\<close>

definition over_limit :: "nat \<Rightarrow> nat \<Rightarrow> bool" where
  "over_limit lim digits = (640 < digits \<and> 0 < lim \<and> lim < digits)"

definition int_isspace :: "char \<Rightarrow> bool" where
  "int_isspace c =
     (in_range 9 13 c \<or> of_char c = (32::nat) \<or> of_char c = (133::nat) \<or>
      of_char c = (160::nat))"

definition int_strip :: "string \<Rightarrow> string" where
  "int_strip s = rev (dropWhile int_isspace (rev (dropWhile int_isspace s)))"

definition digit_val :: "char \<Rightarrow> nat" where
  "digit_val c = of_char c - 48"

fun dec_digits :: "nat \<Rightarrow> string \<Rightarrow> nat option" where
  "dec_digits acc [] = Some acc"
| "dec_digits acc (c # cs) =
     (if is_digit c then dec_digits (10 * acc + digit_val c) cs
      else if c = CHR ''_'' \<and> (case cs of [] \<Rightarrow> False | d # _ \<Rightarrow> is_digit d)
           then dec_digits acc cs
      else None)"

definition py_int :: "nat \<Rightarrow> string \<Rightarrow> int option" where
  "py_int lim s =
     (let t = int_strip s;
          negative = (case t of [] \<Rightarrow> False | c # _ \<Rightarrow> c = CHR ''-'');
          digits = (case t of [] \<Rightarrow> []
                    | c # cs \<Rightarrow> if c = CHR ''-'' \<or> c = CHR ''+'' then cs else t)
      in case digits of
           [] \<Rightarrow> None
         | d # _ \<Rightarrow>
             if is_digit d \<and> \<not> over_limit lim (length (filter is_digit digits))
             then map_option (\<lambda>n. if negative then - int n else int n) (dec_digits 0 digits)
             else None)"

text \<open>\<^verbatim>\<open>str(i)\<close> for an integer.\<close>

function str_nat :: "nat \<Rightarrow> string" where
  "str_nat n =
     (if n < 10 then [char_of (48 + n)]
      else str_nat (n div 10) @ [char_of (48 + n mod 10)])"
  by pat_completeness auto
termination
  by (relation "measure id") auto

declare str_nat.simps [simp del]

definition str_int :: "int \<Rightarrow> string" where
  "str_int i = (if i < 0 then CHR ''-'' # str_nat (nat (- i)) else str_nat (nat i))"

text \<open>The conversion raises (\<open>None\<close>) when the integer has too many digits.\<close>

definition py_str_int :: "nat \<Rightarrow> int \<Rightarrow> string option" where
  "py_str_int lim i =
     (if over_limit lim (length (str_nat (nat \<bar>i\<bar>))) then None else Some (str_int i))"

definition new_row ::
  "env \<Rightarrow> string \<Rightarrow> string \<Rightarrow> string \<Rightarrow> string \<Rightarrow> string \<Rightarrow> string list" where
  "new_row e name phone email question interactions =
     [name, phone, email, question, current_date e, current_time e, interactions]"

text \<open>
  The inner \<^verbatim>\<open>try\<close> of \<^verbatim>\<open>store_customer_data\<close>.  The result is the new sheet, or, when
  something raised, the number of calls to the service issued so far: the handler that
  catches the exception is a bare \<^verbatim>\<open>except\<close>, which does not look at it.
\<close>

definition store_lookup ::
  "env \<Rightarrow> sheet \<Rightarrow> string \<Rightarrow> string \<Rightarrow> string \<Rightarrow> string \<Rightarrow> nat + sheet" where
  "store_lookup e sh name phone email question =
     (if sheet_fault e 0 then Inl 1
      else case findall sh phone of
        [] \<Rightarrow>
          if sheet_fault e 1 then Inl 2
          else Inr (append_row sh (new_row e name phone email question ''1''))
      | cell # _ \<Rightarrow>
          if sheet_fault e 1 then Inl 2
          else
            (let row_num = fst cell;
                 value = cell_value sh row_num 7;
                 current_interactions = (if value = [] then ''0'' else value)
             in case py_int (max_str_digits e) current_interactions of
                  None \<Rightarrow> Inl 2
                | Some n \<Rightarrow>
                    (case py_str_int (max_str_digits e) (n + 1) of
                       None \<Rightarrow> Inl 2
                     | Some new_interactions \<Rightarrow>
                         if sheet_fault e 2 then Inl 3
                         else Inr (update_row sh row_num
                                     (new_row e name phone email question
                                        new_interactions)))))"

text \<open>
  The whole function: no sheet, no store; a failure of the inner \<^verbatim>\<open>try\<close> is answered by
  appending a first-contact row, and only a failure of that call makes the function
  return \<^verbatim>\<open>False\<close>.
\<close>

definition store_customer_data ::
  "env \<Rightarrow> sheet option \<Rightarrow> string \<Rightarrow> string \<Rightarrow> string \<Rightarrow> string \<Rightarrow> bool \<times> sheet option" where
  "store_customer_data e sheet_opt name phone email question =
     (case sheet_opt of
        None \<Rightarrow> (False, None)
      | Some sh \<Rightarrow>
          (case store_lookup e sh name phone email question of
             Inr sh' \<Rightarrow> (True, Some sh')
           | Inl calls \<Rightarrow>
               if sheet_fault e calls then (False, Some sh)
               else (True, Some (append_row sh (new_row e name phone email question ''1'')))))"

section \<open>The notification handler\<close>

text \<open>The operations of the handler on decoded JSON, with the exceptions they raise.\<close>

definition truthy :: "json \<Rightarrow> bool" where
  "truthy v =
     (case v of
        JNull \<Rightarrow> False
      | JBool b \<Rightarrow> b
      | JNum n \<Rightarrow> n \<noteq> 0
      | JStr s \<Rightarrow> s \<noteq> []
      | JArr xs \<Rightarrow> xs \<noteq> []
      | JObj items \<Rightarrow> items \<noteq> [])"

text \<open>\<^verbatim>\<open>v.get(key, dflt)\<close>: only a dictionary has the method.\<close>

definition py_get :: "json \<Rightarrow> string \<Rightarrow> json \<Rightarrow> py_exn + json" where
  "py_get v key dflt =
     (case v of JObj items \<Rightarrow> Inr (dict_get items key dflt) | _ \<Rightarrow> Inl AttributeError)"

text \<open>\<^verbatim>\<open>v[key]\<close> for a string key.\<close>

definition py_item :: "json \<Rightarrow> string \<Rightarrow> py_exn + json" where
  "py_item v key =
     (case v of
        JObj items \<Rightarrow> (case map_of items key of None \<Rightarrow> Inl KeyError | Some x \<Rightarrow> Inr x)
      | _ \<Rightarrow> Inl TypeError)"

text \<open>
  \<^verbatim>\<open>v[0]\<close>: the first element of a list, the first character of a string; a dictionary
  decoded from JSON has no key \<open>0\<close>.
\<close>

definition py_first :: "json \<Rightarrow> py_exn + json" where
  "py_first v =
     (case v of
        JArr xs \<Rightarrow> (case xs of [] \<Rightarrow> Inl IndexError | x # _ \<Rightarrow> Inr x)
      | JStr s \<Rightarrow> (case s of [] \<Rightarrow> Inl IndexError | c # _ \<Rightarrow> Inr (JStr [c]))
      | JObj items \<Rightarrow> Inl KeyError
      | _ \<Rightarrow> Inl TypeError)"

definition and_then :: "py_exn + 'a \<Rightarrow> ('a \<Rightarrow> py_exn + 'b) \<Rightarrow> py_exn + 'b" where
  "and_then m f = (case m of Inl exn \<Rightarrow> Inl exn | Inr x \<Rightarrow> f x)"

definition first_entry :: "json \<Rightarrow> py_exn + json" where
  "first_entry data = and_then (py_item data ''entry'') py_first"

definition first_change :: "json \<Rightarrow> py_exn + json" where
  "first_change data =
     and_then (first_entry data) (\<lambda>entry. and_then (py_item entry ''changes'') py_first)"

text \<open>The condition of the \<^verbatim>\<open>if\<close>, a chain of \<^verbatim>\<open>and\<close> that stops at the first false link.\<close>

definition is_notification :: "json \<Rightarrow> py_exn + bool" where
  "is_notification data =
     and_then (py_get data ''object'' JNull) (\<lambda>obj.
       if obj \<noteq> JStr ''whatsapp_business_account'' then Inr False else
       and_then (py_get data ''entry'' JNull) (\<lambda>entries.
         if \<not> truthy entries then Inr False else
         and_then (first_entry data) (\<lambda>entry.
         and_then (py_get entry ''changes'' JNull) (\<lambda>changes.
           if \<not> truthy changes then Inr False else
           and_then (first_change data) (\<lambda>change.
           and_then (py_get change ''value'' (JObj [])) (\<lambda>v.
           and_then (py_get v ''messages'' JNull) (\<lambda>messages.
             Inr (truthy messages))))))))"

text \<open>The local variables the handler fills before it looks at the message type.\<close>

record extracted =
  phone_number_id :: json
  from_number :: json
  message_text :: json
  customer_name :: json
  message_type :: json

definition extract_fields :: "json \<Rightarrow> py_exn + extracted" where
  "extract_fields data =
     and_then (first_entry data) (\<lambda>entry.
     and_then (and_then (py_item entry ''changes'') py_first) (\<lambda>changes.
     and_then (py_item changes ''value'') (\<lambda>v.
     and_then (and_then (py_item v ''messages'') py_first) (\<lambda>message_data.
     and_then (py_get v ''contacts'' (JArr [])) (\<lambda>contacts.
     and_then (and_then (py_item v ''metadata'') (\<lambda>m. py_item m ''phone_number_id''))
       (\<lambda>pid.
     and_then (py_get message_data ''from'' JNull) (\<lambda>from.
     and_then (and_then (py_get message_data ''text'' (JObj []))
                 (\<lambda>t. py_get t ''body'' (JStr []))) (\<lambda>text.
     and_then
       (if truthy contacts
        then and_then (and_then (py_first contacts) (\<lambda>c. py_get c ''profile'' (JObj [])))
               (\<lambda>profile. py_get profile ''name'' from)
        else Inr (JStr ''Customer'')) (\<lambda>name.
     and_then (py_get message_data ''type'' JNull) (\<lambda>ty.
       Inr \<lparr>phone_number_id = pid, from_number = from, message_text = text,
            customer_name = name, message_type = ty\<rparr>))))))))))"

text \<open>
  A JSON reply is \<^verbatim>\<open>{'status': s}\<close> or \<^verbatim>\<open>{'error': str(e)}\<close>, with its status code.
\<close>

datatype body = Status string | Error py_exn

type_synonym json_response = "body \<times> nat"

text \<open>A value as an f-string or \<^verbatim>\<open>str.format\<close> prints it.\<close>

definition render :: "env \<Rightarrow> json \<Rightarrow> string" where
  "render e v = (case v of JStr s \<Rightarrow> s | _ \<Rightarrow> py_str e v)"

text \<open>
  The call of \<^verbatim>\<open>store_customer_data\<close> from the handler.  The name and the number come
  from the payload unchecked; when both are strings the call is the one modelled above.
\<close>

definition store_any ::
  "env \<Rightarrow> sheet option \<Rightarrow> json \<Rightarrow> json \<Rightarrow> string \<Rightarrow> string \<Rightarrow> bool \<times> sheet option" where
  "store_any e sheet_opt name phone email question =
     (case (name, phone) of
        (JStr n, JStr p) \<Rightarrow> store_customer_data e sheet_opt n p email question
      | _ \<Rightarrow>
          (case sheet_opt of
             None \<Rightarrow> (False, None)
           | Some sh \<Rightarrow> map_prod id Some (store_other e sh name phone email question)))"

text \<open>
  A run of the handler's \<^verbatim>\<open>try\<close> ends in a return value (\<open>None\<close> when control falls off
  the end of the function) or in an exception; with it come the sheet as the run leaves it
  and the requests the run has sent.
\<close>

type_synonym run = "(py_exn + json_response option) \<times> sheet option \<times> event list"

text \<open>
  The steps after the type test.  \<^verbatim>\<open>re.search\<close> raises unless the message body is a
  string; the three calls that follow catch what they raise and return.
\<close>

definition process_text :: "env \<Rightarrow> config \<Rightarrow> sheet option \<Rightarrow> extracted \<Rightarrow> run" where
  "process_text e cfg sheet_opt x =
     (case message_text x of
        JStr text \<Rightarrow>
          (let email = extract_email text;
               (stored, sheet') =
                  store_any e sheet_opt (customer_name x) (from_number x) email text;
               (ai_response, posts) =
                  get_ai_response e cfg text (render e (customer_name x));
               (sent, sends) =
                  send_whatsapp_message e (phone_number_id x) (from_number x) ai_response
           in (Inr (Some (Status ''success'', 200)), sheet', posts @ sends))
      | _ \<Rightarrow> (Inl TypeError, sheet_opt, []))"

definition handle_body :: "env \<Rightarrow> config \<Rightarrow> sheet option \<Rightarrow> py_exn + json \<Rightarrow> run" where
  "handle_body e cfg sheet_opt request =
     (case and_then request (\<lambda>data.
             and_then (is_notification data) (\<lambda>matches.
               if matches then map_result Some (extract_fields data) else Inr None)) of
        Inl exn \<Rightarrow> (Inl exn, sheet_opt, [])
      | Inr None \<Rightarrow> (Inr None, sheet_opt, [])
      | Inr (Some x) \<Rightarrow>
          if message_type x \<noteq> JStr ''text''
          then (Inr (Some (Status ''ignored'', 200)), sheet_opt, [])
          else process_text e cfg sheet_opt x)"

record outcome =
  returned :: "json_response option"
  sheet_after :: "sheet option"
  requests :: "event list"

text \<open>
  \<^verbatim>\<open>handle_message\<close>: the request is the outcome of \<^verbatim>\<open>request.get_json()\<close>, an exception
  or the decoded body.
\<close>

definition handle_message ::
  "env \<Rightarrow> config \<Rightarrow> sheet option \<Rightarrow> py_exn + json \<Rightarrow> outcome" where
  "handle_message e cfg sheet_opt request =
     (case handle_body e cfg sheet_opt request of
        (Inr result, sheet', sent) \<Rightarrow>
          \<lparr>returned = result, sheet_after = sheet', requests = sent\<rparr>
      | (Inl exn, sheet', sent) \<Rightarrow>
          \<lparr>returned = Some (Error exn, 500), sheet_after = sheet', requests = sent\<rparr>)"

section \<open>The vocabulary of the specification\<close>

text \<open>
  The seven keywords, in the order of the table, and the reply the specification expects
  for each of them: the canned text with the customer's name and the business name filled
  in.  These two definitions are written from the specification, not from the code.
\<close>

definition keyword_list :: "string list" where
  "keyword_list = [''hello'', ''hi'', ''help'', ''hours'', ''price'', ''order'', ''support'']"

definition canned_reply :: "config \<Rightarrow> string \<Rightarrow> string \<Rightarrow> string" where
  "canned_reply cfg name keyword =
     (if keyword = ''hello'' then
        ''Hello '' @ name @ ''! Welcome to '' @ BUSINESS_NAME cfg @ ''. How can I help you today?''
      else if keyword = ''hi'' then
        ''Hi '' @ name @ ''! Thanks for contacting '' @ BUSINESS_NAME cfg @
        ''. What can I assist you with?''
      else if keyword = ''help'' then
        ''I'm here to help! Please tell me what you need assistance with.''
      else if keyword = ''hours'' then
        ''Our business hours are 9 AM to 6 PM, Monday to Friday.''
      else if keyword = ''price'' then
        ''For pricing information, please let me know which product you're interested in.''
      else if keyword = ''order'' then
        ''I'd be happy to help with your order. Could you provide your order number?''
      else
        ''You're talking to our support! For complex issues, email '' @ SUPPORT_EMAIL cfg @ ''.'')"

text \<open>
  The Total Interactions count of a row as the ledger holds it: the text of the seventh
  cell, an absent or empty cell standing for 0.
\<close>

definition count_cell :: "string list \<Rightarrow> string" where
  "count_cell row = (if 7 \<le> length row \<and> row ! 6 \<noteq> [] then row ! 6 else ''0'')"

text \<open>
  A row of the ledger contains a text when one of its cells is that text; the cells that a
  row lacks up to the length of the longest row count as empty cells.
\<close>

definition row_has :: "sheet \<Rightarrow> string list \<Rightarrow> string \<Rightarrow> bool" where
  "row_has sh row q = (q \<in> set row \<or> (q = [] \<and> length row < width sh))"

text \<open>
  The shape of a message notification, described independently of the handler: a path
  into a document follows keys of objects and first elements of non-empty arrays.  A
  notification is well formed when it is marked as coming from a business account, and
  its first change of its first entry carries a value with the sending number id in its
  metadata, with contacts that, when present and not empty, start with an object whose
  profile, if any, is an object, and with a first message that is an object whose text
  part, if any, is an object.  A body does not match the expected shape when the marker is
  wrong or one of \<^verbatim>\<open>entry\<close>, \<^verbatim>\<open>changes\<close> and \<^verbatim>\<open>messages\<close> is missing.
\<close>

datatype step = Key string | First

fun path :: "json \<Rightarrow> step list \<Rightarrow> json option" where
  "path v [] = Some v"
| "path (JObj items) (Key k # rest) =
     (case map_of items k of None \<Rightarrow> None | Some x \<Rightarrow> path x rest)"
| "path (JArr (x # xs)) (First # rest) = path x rest"
| "path _ _ = None"

definition value_path :: "step list" where
  "value_path = [Key ''entry'', First, Key ''changes'', First, Key ''value'']"

definition message_path :: "step list" where
  "message_path = value_path @ [Key ''messages'', First]"

definition contacts_ok :: "json \<Rightarrow> bool" where
  "contacts_ok v =
     (case path v [Key ''contacts''] of
        None \<Rightarrow> True
      | Some contacts \<Rightarrow>
          \<not> truthy contacts \<or>
          (case path contacts [First] of
             Some (JObj contact) \<Rightarrow>
               (case map_of contact ''profile'' of
                  None \<Rightarrow> True
                | Some (JObj profile) \<Rightarrow> True
                | Some _ \<Rightarrow> False)
           | _ \<Rightarrow> False))"

definition text_ok :: "json \<Rightarrow> bool" where
  "text_ok message =
     (case message of
        JObj m \<Rightarrow>
          (case map_of m ''text'' of
             None \<Rightarrow> True
           | Some (JObj t) \<Rightarrow> True
           | Some _ \<Rightarrow> False)
      | _ \<Rightarrow> False)"

definition well_formed :: "json \<Rightarrow> bool" where
  "well_formed data =
     (path data [Key ''object''] = Some (JStr ''whatsapp_business_account'') \<and>
      (case path data value_path of
         None \<Rightarrow> False
       | Some v \<Rightarrow>
           path v [Key ''metadata'', Key ''phone_number_id''] \<noteq> None \<and>
           contacts_ok v \<and>
           (case path v [Key ''messages'', First] of
              None \<Rightarrow> False
            | Some message \<Rightarrow> text_ok message)))"

definition mismatch :: "json \<Rightarrow> bool" where
  "mismatch data =
     (path data [Key ''object''] \<noteq> Some (JStr ''whatsapp_business_account'') \<or>
      path data [Key ''entry''] = None \<or>
      path data [Key ''entry'', First, Key ''changes''] = None \<or>
      path data (value_path @ [Key ''messages'']) = None)"

section \<open>Sample environments\<close>

text \<open>
  One in which every service answers, and one in which every service fails.
\<close>

definition sample_env :: env where
  "sample_env =
     \<lparr>current_date = ''2024-05-17'', current_time = ''09:30:00'',
      sheet_fault = (\<lambda>k. False),
      max_str_digits = 4300,
      hosted_post = (\<lambda>prompt. Inr \<lparr>status_code = 200,
         json_body = Some (JArr [JObj [(''generated_text'',
                       JStr (prompt @ '' We ship within two days.''))]])\<rparr>),
      whatsapp_post = (\<lambda>pid to msg. Inr 200),
      format_other = (\<lambda>t n b. Inl KeyError),
      py_str = (\<lambda>v. ''None''),
      store_other = (\<lambda>sh n p m q. (False, sh))\<rparr>"

text \<open>An environment in which only the second call to the spreadsheet service fails.\<close>

definition flaky_env :: env where
  "flaky_env =
     \<lparr>current_date = ''2024-05-17'', current_time = ''09:30:00'',
      sheet_fault = (\<lambda>k. k = 1),
      max_str_digits = 4300,
      hosted_post = (\<lambda>prompt. Inl ServiceError),
      whatsapp_post = (\<lambda>pid to msg. Inr 200),
      format_other = (\<lambda>t n b. Inl KeyError),
      py_str = (\<lambda>v. ''None''),
      store_other = (\<lambda>sh n p m q. (False, sh))\<rparr>"

definition failing_env :: env where
  "failing_env =
     \<lparr>current_date = ''2024-05-17'', current_time = ''09:30:00'',
      sheet_fault = (\<lambda>k. True),
      max_str_digits = 4300,
      hosted_post = (\<lambda>prompt. Inl ServiceError),
      whatsapp_post = (\<lambda>pid to msg. Inl ServiceError),
      format_other = (\<lambda>t n b. Inl KeyError),
      py_str = (\<lambda>v. ''None''),
      store_other = (\<lambda>sh n p m q. (False, sh))\<rparr>"


text \<open>
  A ledger with its header row and two customers; the count of the second one has been
  overwritten by hand.
\<close>

definition sample_sheet :: sheet where
  "sample_sheet =
     [[''Name'', ''Phone Number'', ''Email'', ''Latest Question'', ''Last Contact Date'',
       ''Last Contact Time'', ''Total Interactions''],
      [''Ann'', ''15550001'', ''Not provided'', ''hello'', ''2024-05-01'', ''10:00:00'', ''3''],
      [''Bob'', ''15550002'', ''bob@x.org'', ''price?'', ''2024-05-02'', ''11:00:00'', ''n/a'']]"

text \<open>
  A notification as the platform sends it, built from the items of its value and of its
  message, and the items of a text message and of an image message.
\<close>

definition sample_notification :: "(string \<times> json) list \<Rightarrow> (string \<times> json) list \<Rightarrow> json" where
  "sample_notification v message =
     JObj [(''object'', JStr ''whatsapp_business_account''),
           (''entry'', JArr [JObj [(''id'', JStr ''1029''),
             (''changes'', JArr [JObj [(''field'', JStr ''messages''),
               (''value'', JObj (v @ [(''messages'', JArr [JObj message])]))]])]])]"

definition sample_value :: "(string \<times> json) list" where
  "sample_value =
     [(''messaging_product'', JStr ''whatsapp''),
      (''metadata'', JObj [(''phone_number_id'', JStr ''1061'')]),
      (''contacts'', JArr [JObj [(''profile'', JObj [(''name'', JStr ''Ann'')]),
                                 (''wa_id'', JStr ''15550001'')]])]"

definition sample_text :: "(string \<times> json) list" where
  "sample_text =
     [(''from'', JStr ''15550001''), (''id'', JStr ''wamid.1''), (''type'', JStr ''text''),
      (''text'', JObj [(''body'', JStr ''hello, my mail is ann@x.org'')])]"

definition sample_new_text :: "(string \<times> json) list" where
  "sample_new_text =
     [(''from'', JStr ''15550003''), (''id'', JStr ''wamid.3''), (''type'', JStr ''text''),
      (''text'', JObj [(''body'', JStr ''hello'')])]"

definition sample_image :: "(string \<times> json) list" where
  "sample_image =
     [(''from'', JStr ''15550001''), (''id'', JStr ''wamid.2''), (''type'', JStr ''image''),
      (''image'', JObj [(''id'', JStr ''77'')])]"

section \<open>Properties of the verification handshake\<close>

text \<open>
  Claim C1.  A GET request is answered with status 200 only if the supplied verify token
  equals the configured \<^verbatim>\<open>VERIFY_TOKEN\<close>; in that case the body is the request's
  challenge.  Whenever the token does not match, the answer is \<^verbatim>\<open>'Forbidden'\<close> with
  status 403, whatever the challenge was: the answer to a request with a wrong token does
  not depend on its challenge.
\<close>

theorem verify_webhook_token_required:
  "(snd (verify_webhook cfg mode token challenge) = 200 \<longrightarrow>
      token = Some (VERIFY_TOKEN cfg) \<and>
      verify_webhook cfg mode token challenge = (challenge, 200)) \<and>
   (token \<noteq> Some (VERIFY_TOKEN cfg) \<longrightarrow>
      verify_webhook cfg mode token challenge = (Some ''Forbidden'', 403) \<and>
      verify_webhook cfg mode token challenge = verify_webhook cfg mode token challenge')"
  by (simp add: verify_webhook_def)

theorem verify_webhook_token_required_witness:
  "snd (verify_webhook default_config (Some ''subscribe'') (Some ''whatsapp_verify_123'')
          (Some ''1158201444'')) = 200 \<and>
   Some ''whatsapp_verify_123'' = Some (VERIFY_TOKEN default_config) \<and>
   verify_webhook default_config (Some ''subscribe'') (Some ''whatsapp_verify_123'')
     (Some ''1158201444'') = (Some ''1158201444'', 200) \<and>
   Some ''guess'' \<noteq> Some (VERIFY_TOKEN default_config) \<and>
   verify_webhook default_config (Some ''subscribe'') (Some ''guess'') (Some ''1158201444'')
     = (Some ''Forbidden'', 403)"
  using verify_webhook_token_required
          [of default_config "Some ''subscribe''" "Some ''whatsapp_verify_123''"
              "Some ''1158201444''" None]
        verify_webhook_token_required
          [of default_config "Some ''subscribe''" "Some ''guess''" "Some ''1158201444''" None]
  by (simp add: default_config_def verify_webhook_def)

text \<open>
  Claim C2, as stated: a matching token alone makes the handler echo the challenge,
  regardless of the other query parameters.  The handler also tests the mode flag: a
  request with the right token and no \<^verbatim>\<open>hub.mode\<close> is refused.
\<close>

theorem verify_webhook_mode_counterexample:
  "Some ''whatsapp_verify_123'' = Some (VERIFY_TOKEN default_config) \<and>
   verify_webhook default_config None (Some ''whatsapp_verify_123'') (Some ''1158201444'')
     = (Some ''Forbidden'', 403)"
  by (simp add: default_config_def verify_webhook_def)

text \<open>
  Claim C2, amended: a request whose token matches the configured value and whose mode
  flag is \<^verbatim>\<open>'subscribe'\<close> is answered with its challenge and status 200, regardless of
  the challenge; with any other mode flag, or none, it is refused with 403.
\<close>

theorem verify_webhook_echo:
  "token = Some (VERIFY_TOKEN cfg) \<Longrightarrow>
   verify_webhook cfg mode token challenge =
     (if mode = Some ''subscribe'' then (challenge, 200) else (Some ''Forbidden'', 403))"
  by (simp add: verify_webhook_def)

theorem verify_webhook_echo_witness:
  "Some ''whatsapp_verify_123'' = Some (VERIFY_TOKEN default_config) \<and>
   verify_webhook default_config (Some ''subscribe'') (Some ''whatsapp_verify_123'')
     (Some ''1158201444'') = (Some ''1158201444'', 200)"
proof -
  have tok: "Some ''whatsapp_verify_123'' = Some (VERIFY_TOKEN default_config)"
    by (simp add: default_config_def)
  show ?thesis
    using tok verify_webhook_echo [OF tok, of "Some ''subscribe''" "Some ''1158201444''"]
    by simp
qed

section \<open>Properties of the email extraction\<close>

text \<open>
  Claim C6.  The specification reads the pattern as ending in a top-level domain of at
  least two letters.  The class the source writes for that label is \<^verbatim>\<open>[A-Z|a-z]\<close>,
  which also contains the vertical bar, so the source finds an address in a text where
  the pattern of the specification finds none.
\<close>

theorem extract_email_bar:
  "extract_email ''reach me at a@b.c|d'' = ''a@b.c|d'' \<and>
   spec_extract_email ''reach me at a@b.c|d'' = ''Not provided''"
  by code_simp

section \<open>Properties of the reply generator\<close>

lemma py_in_iff: "py_in pat s \<longleftrightarrow> (\<exists>a b. s = a @ pat @ b)"
proof (induction s)
  case Nil
  then show ?case by auto
next
  case (Cons c cs)
  show ?case
  proof
    assume "py_in pat (c # cs)"
    then consider "prefix pat (c # cs)" | "py_in pat cs" by auto
    then show "\<exists>a b. c # cs = a @ pat @ b"
    proof cases
      case 1
      then obtain b where "c # cs = pat @ b" by (auto simp: prefix_def)
      then have "c # cs = [] @ pat @ b" by simp
      then show ?thesis by blast
    next
      case 2
      with Cons.IH obtain a b where "cs = a @ pat @ b" by blast
      then have "c # cs = (c # a) @ pat @ b" by simp
      then show ?thesis by blast
    qed
  next
    assume "\<exists>a b. c # cs = a @ pat @ b"
    then obtain a b where ab: "c # cs = a @ pat @ b" by blast
    show "py_in pat (c # cs)"
    proof (cases a)
      case Nil
      with ab have "prefix pat (c # cs)" by (simp add: prefix_def)
      then show ?thesis by simp
    next
      case (Cons x xs)
      with ab have "cs = xs @ pat @ b" by simp
      with Cons.IH have "py_in pat cs" by blast
      then show ?thesis by simp
    qed
  qed
qed

lemma py_format_literal:
  "CHR ''{'' \<notin> set s \<Longrightarrow> CHR ''}'' \<notin> set s \<Longrightarrow>
   py_format e (s @ t) n b = map_result ((@) s) (py_format e t n b)"
proof (induction s)
  case Nil
  show ?case by (cases "py_format e t n b") (simp_all add: map_result_def)
next
  case (Cons c s)
  then have c: "c \<noteq> CHR ''{''" "c \<noteq> CHR ''}''" by auto
  from Cons have IH: "py_format e (s @ t) n b = map_result ((@) s) (py_format e t n b)"
    by simp
  show ?case using c by (cases "py_format e t n b") (simp_all add: IH map_result_def)
qed

lemma py_format_name:
  "py_format e (''{name}'' @ t) n b = map_result ((@) n) (py_format e t n b)"
  by simp

lemma py_format_business:
  "py_format e (''{business}'' @ t) n b = map_result ((@) b) (py_format e t n b)"
  by simp

lemma map_result_simps [simp]:
  "map_result f (Inl x) = Inl x" "map_result f (Inr v) = Inr (f v)"
  by (simp_all add: map_result_def)

lemma find_first:
  "find P xs = Some k \<Longrightarrow>
   k \<in> set xs \<and> P k \<and> (\<forall>j \<in> set (takeWhile (\<lambda>x. x \<noteq> k) xs). \<not> P j)"
  by (induction xs) (auto split: if_splits)

lemma find_None: "find P xs = None \<longleftrightarrow> (\<forall>x \<in> set xs. \<not> P x)"
  by (induction xs) auto

lemma predefined_find:
  "get_predefined_response cfg m =
     (case find (\<lambda>k. py_in k m) keyword_list of
        None \<Rightarrow> None
      | Some k \<Rightarrow> map_of (responses cfg) k)"
  by (simp add: get_predefined_response_def responses_def keyword_list_def)

lemma format_support:
  assumes "CHR ''{'' \<notin> set s" "CHR ''}'' \<notin> set s"
  shows "py_format e (''You're talking to our support! For complex issues, email '' @ s @ ''.'') n b
       = Inr (''You're talking to our support! For complex issues, email '' @ s @ ''.'')"
proof -
  have "py_format e ((''You're talking to our support! For complex issues, email '' @ s @ ''.'') @ []) n b
       = map_result ((@) (''You're talking to our support! For complex issues, email '' @ s @ ''.''))
           (py_format e [] n b)"
    by (rule py_format_literal) (use assms in auto)
  then show ?thesis by simp
qed

lemma format_canned:
  assumes "CHR ''{'' \<notin> set (SUPPORT_EMAIL cfg)" "CHR ''}'' \<notin> set (SUPPORT_EMAIL cfg)"
      and "k \<in> set keyword_list"
  shows "\<exists>t. map_of (responses cfg) k = Some t \<and> t \<noteq> [] \<and>
             py_format e t n (BUSINESS_NAME cfg) = Inr (canned_reply cfg n k)"
proof -
  have "\<forall>k \<in> set keyword_list. \<exists>t. map_of (responses cfg) k = Some t \<and> t \<noteq> [] \<and>
             py_format e t n (BUSINESS_NAME cfg) = Inr (canned_reply cfg n k)"
    using format_support [OF assms(1,2), of e n "BUSINESS_NAME cfg"]
    by (simp add: keyword_list_def responses_def canned_reply_def)
  then show ?thesis using assms(3) by (rule bspec)
qed

lemma responses_nonempty:
  "k \<in> set keyword_list \<Longrightarrow> \<exists>t. map_of (responses cfg) k = Some t \<and> t \<noteq> []"
proof -
  have "\<forall>k \<in> set keyword_list. \<exists>t. map_of (responses cfg) k = Some t \<and> t \<noteq> []"
    by (simp add: keyword_list_def responses_def)
  then show "k \<in> set keyword_list \<Longrightarrow> \<exists>t. map_of (responses cfg) k = Some t \<and> t \<noteq> []"
    by (rule bspec)
qed

lemma predefined_None:
  "get_predefined_response cfg m = None \<longleftrightarrow> (\<forall>k \<in> set keyword_list. \<not> py_in k m)"
proof (cases "find (\<lambda>k. py_in k m) keyword_list")
  case None
  then have "\<forall>k \<in> set keyword_list. \<not> py_in k m" by (simp add: find_None)
  moreover have "get_predefined_response cfg m = None"
    using None by (simp add: predefined_find)
  ultimately show ?thesis by simp
next
  case (Some k)
  then have k: "k \<in> set keyword_list" "py_in k m" using find_first by fast+
  with responses_nonempty [of k cfg] Some show ?thesis
    by (auto simp: predefined_find)
qed

lemma predefined_Some:
  assumes "get_predefined_response cfg m = Some t"
  shows "\<exists>k. find (\<lambda>k. py_in k m) keyword_list = Some k \<and> map_of (responses cfg) k = Some t"
  using assms by (simp add: predefined_find split: option.splits)

lemma ai_events:
  "snd (get_ai_response e cfg message name) =
     (if \<exists>k \<in> set keyword_list. py_in k (py_lower message) then []
      else [HostedPost (make_prompt message name)])"
proof (cases "get_predefined_response cfg (py_lower message)")
  case None
  then have "\<not> (\<exists>k \<in> set keyword_list. py_in k (py_lower message))"
    by (simp add: predefined_None)
  with None show ?thesis
    by (simp add: get_ai_response_def ai_response_body_def hosted_reply_def Let_def
             split: sum.splits)
next
  case (Some t)
  then obtain k where k: "find (\<lambda>k. py_in k (py_lower message)) keyword_list = Some k"
      "map_of (responses cfg) k = Some t"
    using predefined_Some by blast
  then have kk: "k \<in> set keyword_list" "py_in k (py_lower message)" using find_first by fast+
  with responses_nonempty [of k cfg] k have "t \<noteq> []" by auto
  with Some kk show ?thesis
    by (auto simp: get_ai_response_def ai_response_body_def split: sum.splits)
qed

lemma ai_canned:
  assumes "CHR ''{'' \<notin> set (SUPPORT_EMAIL cfg)" "CHR ''}'' \<notin> set (SUPPORT_EMAIL cfg)"
      and "\<exists>k \<in> set keyword_list. py_in k (py_lower message)"
  shows "\<exists>k \<in> set keyword_list. py_in k (py_lower message) \<and>
           (\<forall>j \<in> set (takeWhile (\<lambda>x. x \<noteq> k) keyword_list). \<not> py_in j (py_lower message)) \<and>
           get_ai_response e cfg message name = (canned_reply cfg name k, [])"
proof -
  from assms(3) obtain k where k: "find (\<lambda>k. py_in k (py_lower message)) keyword_list = Some k"
    by (cases "find (\<lambda>k. py_in k (py_lower message)) keyword_list") (auto simp: find_None)
  from find_first [OF k] have kk: "k \<in> set keyword_list" "py_in k (py_lower message)"
      "\<forall>j \<in> set (takeWhile (\<lambda>x. x \<noteq> k) keyword_list). \<not> py_in j (py_lower message)"
    by blast+
  from format_canned [OF assms(1,2) kk(1), of e name] obtain t where
    t: "map_of (responses cfg) k = Some t" "t \<noteq> []"
       "py_format e t name (BUSINESS_NAME cfg) = Inr (canned_reply cfg name k)"
    by blast
  have "get_predefined_response cfg (py_lower message) = Some t"
    using k t(1) by (simp add: predefined_find)
  with t have "get_ai_response e cfg message name = (canned_reply cfg name k, [])"
    by (simp add: get_ai_response_def ai_response_body_def)
  with kk show ?thesis by blast
qed


text \<open>
  What the table guarantees.  It is consulted first for every input: a hosted
  text-generation request is sent exactly when none of the seven keywords occurs in the
  lowercased message.  When some keyword occurs, and the configured support address
  contains no brace, the reply is the canned text of the first keyword, in the order of
  the table, that occurs in the lowercased message, with the customer's name and the
  business name filled in, and no request has been sent.
\<close>

lemma get_ai_response_predefined:
  "snd (get_ai_response e cfg message name) =
     (if \<exists>k \<in> set keyword_list. py_in k (py_lower message) then []
      else [HostedPost (make_prompt message name)]) \<and>
   (CHR ''{'' \<notin> set (SUPPORT_EMAIL cfg) \<longrightarrow> CHR ''}'' \<notin> set (SUPPORT_EMAIL cfg) \<longrightarrow>
    (\<exists>k \<in> set keyword_list. py_in k (py_lower message)) \<longrightarrow>
    (\<exists>k \<in> set keyword_list. py_in k (py_lower message) \<and>
       (\<forall>j \<in> set (takeWhile (\<lambda>x. x \<noteq> k) keyword_list). \<not> py_in j (py_lower message)) \<and>
       get_ai_response e cfg message name = (canned_reply cfg name k, [])))"
  using ai_events ai_canned by blast


lemma get_ai_response_predefined_example:
  "CHR ''{'' \<notin> set (SUPPORT_EMAIL default_config) \<and>
   CHR ''}'' \<notin> set (SUPPORT_EMAIL default_config) \<and>
   (\<exists>k \<in> set keyword_list. py_in k (py_lower ''Hi there'')) \<and>
   (\<exists>k \<in> set keyword_list. py_in k (py_lower ''Hi there'') \<and>
      (\<forall>j \<in> set (takeWhile (\<lambda>x. x \<noteq> k) keyword_list). \<not> py_in j (py_lower ''Hi there'')) \<and>
      get_ai_response sample_env default_config ''Hi there'' ''Ann''
        = (canned_reply default_config ''Ann'' k, []))"
proof -
  have a: "CHR ''{'' \<notin> set (SUPPORT_EMAIL default_config)"
    and b: "CHR ''}'' \<notin> set (SUPPORT_EMAIL default_config)"
    by (simp_all add: default_config_def)
  have c: "\<exists>k \<in> set keyword_list. py_in k (py_lower ''Hi there'')"
    by code_simp
  note reply =
    get_ai_response_predefined
      [of sample_env default_config "''Hi there''" "''Ann''", THEN conjunct2, rule_format,
       OF a b c]
  show ?thesis by (rule conjI [OF a conjI [OF b conjI [OF c reply]]])
qed

text \<open>
  Claim C4.  Every message whose lowercased text contains a keyword is to be answered with
  the canned text of that keyword.  The last template of the table is an f-string, so the
  support address is part of the text that \<^verbatim>\<open>str.format\<close> scans afterwards; an opening
  brace in the address that is never closed makes the formatting raise.  With such an
  address, a message that contains \<^verbatim>\<open>support\<close> and no earlier keyword is answered with
  the greeting of the exception handler, which is not the canned text.  No request is sent
  in that run either.
\<close>

theorem get_ai_response_brace:
  "py_in ''support'' (py_lower ''I need support'') \<and>
   get_ai_response sample_env (default_config\<lparr>SUPPORT_EMAIL := ''help{desk@x.org''\<rparr>)
     ''I need support'' ''Ann'' = (greeting_error ''Ann'', []) \<and>
   greeting_error ''Ann'' \<noteq>
     canned_reply (default_config\<lparr>SUPPORT_EMAIL := ''help{desk@x.org''\<rparr>) ''Ann''
       ''support''"
  by code_simp

lemma py_inI: "s = a @ pat @ b \<Longrightarrow> py_in pat s"
  unfolding py_in_iff by (intro exI)

lemma greetings_name:
  "py_in name (greeting_fallback cfg name)" "py_in name (greeting_error name)"
proof -
  show "py_in name (greeting_fallback cfg name)"
    by (rule py_inI [where a = "''Hello ''"
          and b = "''! Thank you for contacting '' @ BUSINESS_NAME cfg @
                   ''. How can I help you today?''"])
       (simp add: greeting_fallback_def)
  show "py_in name (greeting_error name)"
    by (rule py_inI [where a = "''Hi ''"
          and b = "''! Thanks for your message. Our team will get back to you soon!''"])
       (simp add: greeting_error_def)
qed

lemma greetings_nonempty:
  "greeting_fallback cfg name \<noteq> []" "greeting_error name \<noteq> []"
  by (simp_all add: greeting_fallback_def greeting_error_def)

lemma generated_reply_cases:
  assumes "generated_reply cfg name prompt outcome = Inr r"
  shows "r = greeting_fallback cfg name \<or>
         (\<exists>resp items rest g. outcome = Inr resp \<and> status_code resp = 200 \<and>
            json_body resp = Some (JArr (JObj items # rest)) \<and>
            map_of items ''generated_text'' = Some (JStr g) \<and>
            10 < length (py_strip (py_remove prompt g)) \<and>
            r = take 400 (py_strip (py_remove prompt g)))"
proof (cases outcome)
  case (Inl exn)
  with assms show ?thesis by (simp add: generated_reply_def)
next
  case (Inr resp)
  show ?thesis
  proof (cases "status_code resp = 200")
    case False
    with assms Inr show ?thesis by (simp add: generated_reply_def)
  next
    case True
    note ok = this
    show ?thesis
    proof (cases "json_body resp")
      case None
      with assms Inr ok show ?thesis by (simp add: generated_reply_def)
    next
      case (Some result)
      show ?thesis
      proof (cases "\<exists>items rest. result = JArr (JObj items # rest)")
        case False
        with assms Inr ok Some show ?thesis
          by (auto simp: generated_reply_def split: json.splits list.splits)
      next
        case True
        then obtain items rest where res: "result = JArr (JObj items # rest)" by blast
        show ?thesis
        proof (cases "map_of items ''generated_text''")
          case None
          with assms Inr ok Some res show ?thesis
            by (simp add: generated_reply_def dict_get_def py_strip_def)
        next
          case (Some v)
          note gen = this
          show ?thesis
          proof (cases v)
            case (JStr g)
            with assms Inr ok \<open>json_body resp = Some result\<close> res gen show ?thesis
              by (auto simp: generated_reply_def dict_get_def Let_def split: if_splits)
          qed (use assms Inr ok \<open>json_body resp = Some result\<close> res gen in
                \<open>simp_all add: generated_reply_def dict_get_def\<close>)
        qed
      qed
    qed
  qed
qed

lemma generated_reply_nonempty:
  assumes "generated_reply cfg name prompt outcome = Inr r"
  shows "r \<noteq> []"
  using generated_reply_cases [OF assms] greetings_nonempty(1) [of cfg name] by auto

lemma py_format_head:
  "c \<noteq> CHR ''{'' \<Longrightarrow> c \<noteq> CHR ''}'' \<Longrightarrow> py_format e (c # cs) n b = Inr r \<Longrightarrow> r \<noteq> []"
  by (cases "py_format e cs n b") auto

lemma responses_head:
  "k \<in> set keyword_list \<Longrightarrow>
   \<exists>c cs. map_of (responses cfg) k = Some (c # cs) \<and> c \<noteq> CHR ''{'' \<and> c \<noteq> CHR ''}''"
proof -
  have "\<forall>k \<in> set keyword_list.
          \<exists>c cs. map_of (responses cfg) k = Some (c # cs) \<and> c \<noteq> CHR ''{'' \<and> c \<noteq> CHR ''}''"
    by (simp add: keyword_list_def responses_def)
  then show "k \<in> set keyword_list \<Longrightarrow>
      \<exists>c cs. map_of (responses cfg) k = Some (c # cs) \<and> c \<noteq> CHR ''{'' \<and> c \<noteq> CHR ''}''"
    by (rule bspec)
qed

lemma ai_body_nonempty:
  assumes "ai_response_body e cfg message name = (Inr r, evs)"
  shows "r \<noteq> []"
proof (cases "get_predefined_response cfg (py_lower message)")
  case None
  with assms show ?thesis
    by (auto simp: ai_response_body_def hosted_reply_def Let_def
             dest: generated_reply_nonempty)
next
  case (Some t)
  then obtain k where k: "find (\<lambda>k. py_in k (py_lower message)) keyword_list = Some k"
      "map_of (responses cfg) k = Some t"
    using predefined_Some by blast
  then have "k \<in> set keyword_list" using find_first by fast
  from responses_head [OF this, of cfg] k obtain c cs where
    t: "t = c # cs" "c \<noteq> CHR ''{''" "c \<noteq> CHR ''}''" by auto
  with assms Some have "py_format e (c # cs) name (BUSINESS_NAME cfg) = Inr r"
    by (simp add: ai_response_body_def)
  with t show ?thesis using py_format_head by blast
qed

lemma ai_nonempty: "fst (get_ai_response e cfg message name) \<noteq> []"
proof (cases "ai_response_body e cfg message name")
  case (Pair res evs)
  show ?thesis
  proof (cases res)
    case (Inl exn)
    with Pair show ?thesis by (simp add: get_ai_response_def greetings_nonempty)
  next
    case (Inr r)
    with Pair ai_body_nonempty [of e cfg message name r evs] show ?thesis
      by (simp add: get_ai_response_def)
  qed
qed

lemma ai_hosted:
  assumes "\<forall>k \<in> set keyword_list. \<not> py_in k (py_lower message)"
  shows "fst (get_ai_response e cfg message name) =
           (case generated_reply cfg name (make_prompt message name)
                   (hosted_post e (make_prompt message name)) of
              Inl exn \<Rightarrow> greeting_error name | Inr r \<Rightarrow> r)"
proof -
  from assms have "get_predefined_response cfg (py_lower message) = None"
    by (simp add: predefined_None)
  then show ?thesis
    by (simp add: get_ai_response_def ai_response_body_def hosted_reply_def Let_def
             split: sum.splits)
qed


text \<open>
  Claim C5.  The reply is never empty.  When no keyword matches, the reply is one of the
  two static greetings, unless the hosted model answered with status 200 and a usable
  text of more than ten characters: an exception gives the second greeting, a status
  other than 200 gives the first.  Both greetings contain the customer's name.
\<close>

theorem get_ai_response_nonempty:
  "fst (get_ai_response e cfg message name) \<noteq> [] \<and>
   py_in name (greeting_fallback cfg name) \<and> py_in name (greeting_error name) \<and>
   ((\<forall>k \<in> set keyword_list. \<not> py_in k (py_lower message)) \<longrightarrow>
      (\<forall>exn. hosted_post e (make_prompt message name) = Inl exn \<longrightarrow>
         fst (get_ai_response e cfg message name) = greeting_error name) \<and>
      (\<forall>resp. hosted_post e (make_prompt message name) = Inr resp \<longrightarrow>
         status_code resp \<noteq> 200 \<longrightarrow>
         fst (get_ai_response e cfg message name) = greeting_fallback cfg name) \<and>
      (fst (get_ai_response e cfg message name) = greeting_error name \<or>
       fst (get_ai_response e cfg message name) = greeting_fallback cfg name \<or>
       (\<exists>resp items rest g.
          hosted_post e (make_prompt message name) = Inr resp \<and> status_code resp = 200 \<and>
          json_body resp = Some (JArr (JObj items # rest)) \<and>
          map_of items ''generated_text'' = Some (JStr g) \<and>
          10 < length (py_strip (py_remove (make_prompt message name) g)) \<and>
          fst (get_ai_response e cfg message name) =
            take 400 (py_strip (py_remove (make_prompt message name) g)))))"
proof (intro conjI impI allI)
  show "fst (get_ai_response e cfg message name) \<noteq> []" by (rule ai_nonempty)
  show "py_in name (greeting_fallback cfg name)" by (rule greetings_name)
  show "py_in name (greeting_error name)" by (rule greetings_name)
next
  fix exn
  assume "\<forall>k \<in> set keyword_list. \<not> py_in k (py_lower message)"
     and "hosted_post e (make_prompt message name) = Inl exn"
  then show "fst (get_ai_response e cfg message name) = greeting_error name"
    by (simp add: ai_hosted generated_reply_def)
next
  fix resp
  assume "\<forall>k \<in> set keyword_list. \<not> py_in k (py_lower message)"
     and "hosted_post e (make_prompt message name) = Inr resp"
     and "status_code resp \<noteq> 200"
  then show "fst (get_ai_response e cfg message name) = greeting_fallback cfg name"
    by (simp add: ai_hosted generated_reply_def)
next
  assume no: "\<forall>k \<in> set keyword_list. \<not> py_in k (py_lower message)"
  let ?p = "make_prompt message name"
  show "fst (get_ai_response e cfg message name) = greeting_error name \<or>
       fst (get_ai_response e cfg message name) = greeting_fallback cfg name \<or>
       (\<exists>resp items rest g.
          hosted_post e ?p = Inr resp \<and> status_code resp = 200 \<and>
          json_body resp = Some (JArr (JObj items # rest)) \<and>
          map_of items ''generated_text'' = Some (JStr g) \<and>
          10 < length (py_strip (py_remove ?p g)) \<and>
          fst (get_ai_response e cfg message name) = take 400 (py_strip (py_remove ?p g)))"
  proof (cases "generated_reply cfg name ?p (hosted_post e ?p)")
    case (Inl exn)
    with no show ?thesis by (simp add: ai_hosted)
  next
    case (Inr r)
    with no have "fst (get_ai_response e cfg message name) = r" by (simp add: ai_hosted)
    with generated_reply_cases [OF Inr] show ?thesis by auto
  qed
qed

theorem get_ai_response_nonempty_witness:
  "\<not> (\<exists>k \<in> set keyword_list. py_in k (py_lower ''What about a refund?'')) \<and>
   hosted_post failing_env (make_prompt ''What about a refund?'' ''Ann'') = Inl ServiceError \<and>
   fst (get_ai_response failing_env default_config ''What about a refund?'' ''Ann'')
     = greeting_error ''Ann'' \<and>
   hosted_post (failing_env\<lparr>hosted_post := \<lambda>p. Inr \<lparr>status_code = 503, json_body = None\<rparr>\<rparr>)
     (make_prompt ''What about a refund?'' ''Ann'')
     = Inr \<lparr>status_code = 503, json_body = None\<rparr> \<and>
   status_code \<lparr>status_code = 503, json_body = None\<rparr> \<noteq> 200 \<and>
   fst (get_ai_response
          (failing_env\<lparr>hosted_post := \<lambda>p. Inr \<lparr>status_code = 503, json_body = None\<rparr>\<rparr>)
          default_config ''What about a refund?'' ''Ann'')
     = greeting_fallback default_config ''Ann''"
proof -
  have no: "\<forall>k \<in> set keyword_list. \<not> py_in k (py_lower ''What about a refund?'')"
    by code_simp
  have down: "hosted_post failing_env (make_prompt ''What about a refund?'' ''Ann'')
      = Inl ServiceError"
    by (simp add: failing_env_def)
  have busy: "hosted_post
       (failing_env\<lparr>hosted_post := \<lambda>p. Inr \<lparr>status_code = 503, json_body = None\<rparr>\<rparr>)
       (make_prompt ''What about a refund?'' ''Ann'')
      = Inr \<lparr>status_code = 503, json_body = None\<rparr>"
    by simp
  show ?thesis
    using no down busy
      get_ai_response_nonempty
        [of failing_env default_config "''What about a refund?''" "''Ann''"]
      get_ai_response_nonempty
        [of "failing_env\<lparr>hosted_post := \<lambda>p. Inr \<lparr>status_code = 503, json_body = None\<rparr>\<rparr>"
            default_config "''What about a refund?''" "''Ann''"]
    by simp
qed

section \<open>Properties of the message sender\<close>

text \<open>
  Claim C7.  \<^verbatim>\<open>send_whatsapp_message\<close> returns \<^verbatim>\<open>True\<close> exactly when its POST returns
  status 200, it returns \<^verbatim>\<open>False\<close> when the POST raises, and it sends exactly one
  request in either case.
\<close>

theorem send_whatsapp_message_status:
  "(fst (send_whatsapp_message e pid to_number msg) \<longleftrightarrow>
      whatsapp_post e pid to_number msg = Inr 200) \<and>
   (\<forall>exn. whatsapp_post e pid to_number msg = Inl exn \<longrightarrow>
      \<not> fst (send_whatsapp_message e pid to_number msg)) \<and>
   snd (send_whatsapp_message e pid to_number msg) = [SendPost pid to_number msg]"
  by (cases "whatsapp_post e pid to_number msg") (simp_all add: send_whatsapp_message_def)

theorem send_whatsapp_message_status_witness:
  "whatsapp_post sample_env (JStr ''1061'') (JStr ''15550001'') ''Hello Ann!'' = Inr 200 \<and>
   fst (send_whatsapp_message sample_env (JStr ''1061'') (JStr ''15550001'') ''Hello Ann!'') \<and>
   whatsapp_post failing_env (JStr ''1061'') (JStr ''15550001'') ''Hello Ann!''
     = Inl ServiceError \<and>
   \<not> fst (send_whatsapp_message failing_env (JStr ''1061'') (JStr ''15550001'') ''Hello Ann!'')"
proof -
  have ok: "whatsapp_post sample_env (JStr ''1061'') (JStr ''15550001'') ''Hello Ann!'' = Inr 200"
    by (simp add: sample_env_def)
  have bad: "whatsapp_post failing_env (JStr ''1061'') (JStr ''15550001'') ''Hello Ann!''
      = Inl ServiceError"
    by (simp add: failing_env_def)
  show ?thesis
    using ok bad
      send_whatsapp_message_status
        [of sample_env "JStr ''1061''" "JStr ''15550001''" "''Hello Ann!''"]
      send_whatsapp_message_status
        [of failing_env "JStr ''1061''" "JStr ''15550001''" "''Hello Ann!''"]
    by simp
qed

section \<open>Properties of the customer ledger\<close>

lemma filter_index_Nil: "filter (\<lambda>j. row ! j = q) [0..<length row] = [] \<longleftrightarrow> q \<notin> set row"
  by (auto simp: filter_empty_conv in_set_conv_nth)

lemma findall_from_Nil:
  "findall_from r sh q = [] \<longleftrightarrow> (\<forall>row \<in> set sh. q \<notin> set row)"
  by (induction sh arbitrary: r) (auto simp: filter_index_Nil)

lemma findall_from_first:
  "i < length sh \<Longrightarrow> q \<in> set (sh ! i) \<Longrightarrow> \<forall>j<i. q \<notin> set (sh ! j) \<Longrightarrow>
   \<exists>c rest. findall_from r sh q = (r + i, c) # rest"
proof (induction sh arbitrary: r i)
  case Nil
  then show ?case by simp
next
  case (Cons row rows)
  show ?case
  proof (cases i)
    case 0
    with Cons.prems have "q \<in> set row" by simp
    then have "filter (\<lambda>j. row ! j = q) [0..<length row] \<noteq> []"
      by (simp add: filter_index_Nil)
    then obtain j js where "filter (\<lambda>j. row ! j = q) [0..<length row] = j # js"
      by (cases "filter (\<lambda>j. row ! j = q) [0..<length row]") auto
    with 0 show ?thesis by simp
  next
    case (Suc i')
    with Cons.prems have "q \<notin> set row" by auto
    then have empty: "filter (\<lambda>j. row ! j = q) [0..<length row] = []"
      by (simp add: filter_index_Nil)
    from Suc Cons.prems have "i' < length rows" "q \<in> set (rows ! i')"
        "\<forall>j<i'. q \<notin> set (rows ! j)"
      by auto
    from Cons.IH [OF this, of "Suc r"] obtain c rest where
      "findall_from (Suc r) rows q = (Suc r + i', c) # rest" by blast
    with empty Suc show ?thesis by simp
  qed
qed

lemma set_padded:
  "q \<in> set (row @ replicate (w - length row) []) \<longleftrightarrow> q \<in> set row \<or> (q = [] \<and> length row < w)"
  by auto

lemma fill_gaps_has:
  "i < length sh \<Longrightarrow> q \<in> set (fill_gaps sh ! i) \<longleftrightarrow> row_has sh (sh ! i) q"
  by (auto simp: fill_gaps_def row_has_def set_padded)

lemma findall_Nil: "findall sh q = [] \<longleftrightarrow> (\<forall>row \<in> set sh. \<not> row_has sh row q)"
  by (auto simp: findall_def findall_from_Nil fill_gaps_def row_has_def set_padded)

lemma findall_first:
  assumes "i < length sh" "row_has sh (sh ! i) q" "\<forall>j<i. \<not> row_has sh (sh ! j) q"
  shows "\<exists>c rest. findall sh q = (Suc i, c) # rest"
proof -
  have len: "length (fill_gaps sh) = length sh" by (simp add: fill_gaps_def)
  have "i < length (fill_gaps sh)" using assms(1) len by simp
  moreover have "q \<in> set (fill_gaps sh ! i)" using assms(1,2) by (simp add: fill_gaps_has)
  moreover have "\<forall>j<i. q \<notin> set (fill_gaps sh ! j)"
    using assms(1,3) by (simp add: fill_gaps_has)
  ultimately obtain c rest where "findall_from 1 (fill_gaps sh) q = (1 + i, c) # rest"
    using findall_from_first by blast
  then show ?thesis by (simp add: findall_def)
qed

lemma digit_char:
  assumes "k < 10"
  shows "is_digit (char_of (48 + k))" "digit_val (char_of (48 + k)) = k"
proof -
  from assms have m: "(48 + k) mod 256 = 48 + k" by simp
  show "is_digit (char_of (48 + k))" using assms by (simp add: is_digit_def in_range_def m)
  show "digit_val (char_of (48 + k)) = k" by (simp add: digit_val_def m)
qed

lemma str_nat_unfold:
  "str_nat n = (if n < 10 then [char_of (48 + n)]
                else str_nat (n div 10) @ [char_of (48 + n mod 10)])"
  by (rule str_nat.simps)

lemma str_nat_digits: "\<forall>c \<in> set (str_nat n). is_digit c"
proof (induction n rule: str_nat.induct)
  case (1 n)
  show ?case
  proof (cases "n < 10")
    case True
    then show ?thesis by (subst str_nat_unfold) (simp add: digit_char)
  next
    case False
    with 1 have "\<forall>c \<in> set (str_nat (n div 10)). is_digit c" by simp
    moreover have "is_digit (char_of (48 + n mod 10))" by (simp add: digit_char)
    ultimately show ?thesis using False by (subst str_nat_unfold) auto
  qed
qed

lemma str_nat_nonempty: "str_nat n \<noteq> []"
  by (subst str_nat_unfold) simp

lemma dec_digits_snoc:
  "\<forall>c \<in> set s. is_digit c \<Longrightarrow> is_digit d \<Longrightarrow>
   dec_digits acc (s @ [d]) = map_option (\<lambda>v. 10 * v + digit_val d) (dec_digits acc s)"
  by (induction s arbitrary: acc) auto

lemma dec_digits_str_nat: "dec_digits 0 (str_nat n) = Some n"
proof (induction n rule: str_nat.induct)
  case (1 n)
  show ?case
  proof (cases "n < 10")
    case True
    then show ?thesis by (subst str_nat_unfold) (simp add: digit_char)
  next
    case False
    with 1 have IH: "dec_digits 0 (str_nat (n div 10)) = Some (n div 10)" by simp
    have "dec_digits 0 (str_nat (n div 10) @ [char_of (48 + n mod 10)])
        = map_option (\<lambda>v. 10 * v + digit_val (char_of (48 + n mod 10)))
            (dec_digits 0 (str_nat (n div 10)))"
      by (rule dec_digits_snoc) (simp_all add: str_nat_digits digit_char)
    also have "\<dots> = Some (10 * (n div 10) + n mod 10)"
      by (simp add: IH digit_char)
    finally show ?thesis using False by (subst str_nat_unfold) simp
  qed
qed

lemma digit_not_space: "is_digit c \<Longrightarrow> \<not> int_isspace c"
  by (auto simp: is_digit_def int_isspace_def in_range_def)

lemma digit_not_sign: "is_digit c \<Longrightarrow> c \<noteq> CHR ''-'' \<and> c \<noteq> CHR ''+''"
  by (auto simp: is_digit_def in_range_def)

lemma int_strip_id:
  assumes "s \<noteq> []" "\<not> int_isspace (hd s)" "\<not> int_isspace (last s)"
  shows "int_strip s = s"
proof -
  from assms have "dropWhile int_isspace s = s" by (cases s) auto
  moreover from assms have "dropWhile int_isspace (rev s) = rev s"
    by (cases "rev s") (auto simp: last_rev [symmetric] simp del: last_rev)
  ultimately show ?thesis by (simp add: int_strip_def)
qed

lemma str_nat_ends:
  "is_digit (hd (str_nat n))" "is_digit (last (str_nat n))"
  using str_nat_digits [of n] str_nat_nonempty [of n] by auto

lemma filter_str_nat: "filter is_digit (str_nat n) = str_nat n"
  using str_nat_digits [of n] by (simp add: filter_id_conv)

lemma py_int_str_int:
  assumes "\<not> over_limit lim (length (str_nat (nat \<bar>i\<bar>)))"
  shows "py_int lim (str_int i) = Some i"
proof (cases "i < 0")
  case True
  let ?ds = "str_nat (nat (- i))"
  from True have abs: "nat \<bar>i\<bar> = nat (- i)" by simp
  obtain d ds where ds: "?ds = d # ds" using str_nat_nonempty by (cases ?ds) auto
  have d: "is_digit d" using str_nat_ends(1) [of "nat (- i)"] ds by simp
  have lim: "\<not> over_limit lim (length (filter is_digit ?ds))"
    using assms abs by (simp add: filter_str_nat)
  have "\<not> int_isspace (last (CHR ''-'' # ?ds))"
    using str_nat_ends(2) [of "nat (- i)"] str_nat_nonempty [of "nat (- i)"]
    by (simp add: digit_not_space)
  moreover have "\<not> int_isspace CHR ''-''" by (simp add: int_isspace_def in_range_def)
  ultimately have "int_strip (CHR ''-'' # ?ds) = CHR ''-'' # ?ds"
    by (intro int_strip_id) simp_all
  then show ?thesis
    using True d lim dec_digits_str_nat [of "nat (- i)"]
    unfolding ds by (simp add: py_int_def str_int_def ds)
next
  case False
  let ?ds = "str_nat (nat i)"
  from False have abs: "nat \<bar>i\<bar> = nat i" by simp
  obtain d ds where ds: "?ds = d # ds" using str_nat_nonempty by (cases ?ds) auto
  have d: "is_digit d" using str_nat_ends(1) [of "nat i"] ds by simp
  have lim: "\<not> over_limit lim (length (filter is_digit ?ds))"
    using assms abs by (simp add: filter_str_nat)
  have "int_strip ?ds = ?ds"
    using str_nat_ends [of "nat i"] str_nat_nonempty [of "nat i"]
    by (intro int_strip_id) (simp_all add: digit_not_space)
  then show ?thesis
    using False d lim dec_digits_str_nat [of "nat i"] digit_not_sign [OF d]
    unfolding ds by (simp add: py_int_def str_int_def ds)
qed

lemma py_int_py_str_int:
  "py_str_int lim i = Some c \<Longrightarrow> py_int lim c = Some i"
  using py_int_str_int [of lim i] by (auto simp: py_str_int_def split: if_splits)

lemma store_absent:
  assumes "\<forall>k. \<not> sheet_fault e k" "\<forall>row \<in> set sh. \<not> row_has sh row phone"
  shows "store_customer_data e (Some sh) name phone email question =
           (True, Some (sh @ [[name, phone, email, question, current_date e, current_time e,
                               ''1'']]))"
proof -
  from assms(2) have "findall sh phone = []" by (simp add: findall_Nil)
  with assms(1) show ?thesis
    by (simp add: store_customer_data_def store_lookup_def append_row_def new_row_def)
qed

lemma update_row_in:
  "i < length sh \<Longrightarrow> length vals = 7 \<Longrightarrow>
   update_row sh (Suc i) vals = sh[i := vals @ drop 7 (sh ! i)]"
  by (simp add: update_row_def)

lemma store_lookup_present:
  assumes "\<forall>k. \<not> sheet_fault e k"
      and "i < length sh" "row_has sh (sh ! i) phone" "\<forall>j<i. \<not> row_has sh (sh ! j) phone"
  shows "store_lookup e sh name phone email question =
           (case py_int (max_str_digits e) (count_cell (sh ! i)) of
              None \<Rightarrow> Inl 2
            | Some n \<Rightarrow>
                (case py_str_int (max_str_digits e) (n + 1) of
                   None \<Rightarrow> Inl 2
                 | Some c \<Rightarrow>
                     Inr (sh[i := [name, phone, email, question, current_date e,
                                   current_time e, c] @ drop 7 (sh ! i)])))"
proof -
  from findall_first [OF assms(2-4)] obtain c rest where
    fa: "findall sh phone = (Suc i, c) # rest" by blast
  have cur: "(if cell_value sh (Suc i) 7 = [] then ''0'' else cell_value sh (Suc i) 7)
      = count_cell (sh ! i)"
    using assms(2) by (simp add: cell_value_def count_cell_def)
  from assms(1) have nf: "sheet_fault e 0 = False" "sheet_fault e 1 = False"
      "sheet_fault e 2 = False"
    by simp_all
  have "store_lookup e sh name phone email question =
      (case py_int (max_str_digits e) (count_cell (sh ! i)) of
         None \<Rightarrow> Inl 2
       | Some n \<Rightarrow>
           (case py_str_int (max_str_digits e) (n + 1) of
              None \<Rightarrow> Inl 2
            | Some c \<Rightarrow>
                Inr (update_row sh (Suc i) (new_row e name phone email question c))))"
    unfolding store_lookup_def Let_def fa
    by (simp only: nf cur if_False list.case fst_conv)
  moreover have "\<And>c. update_row sh (Suc i) (new_row e name phone email question c)
      = sh[i := [name, phone, email, question, current_date e, current_time e, c] @
                drop 7 (sh ! i)]"
    using assms(2) by (subst update_row_in) (simp_all add: new_row_def)
  ultimately show ?thesis by (simp split: option.splits)
qed


text \<open>
  Claim C3, as stated: whenever some row contains the phone number, that row is updated
  and its count goes up by one.  The count is read with \<^verbatim>\<open>int\<close>; when the cell does not
  hold an integer the conversion raises inside the inner \<^verbatim>\<open>try\<close>, and the handler of
  that \<^verbatim>\<open>try\<close> appends a first-contact row instead.  The row that contains the number
  stays as it was.
\<close>

theorem store_customer_data_count_counterexample:
  "''15550002'' \<in> set (sample_sheet ! 2) \<and>
   store_customer_data sample_env (Some sample_sheet) ''Bob'' ''15550002'' ''bob@x.org''
     ''hours?'' =
     (True, Some (sample_sheet @
        [[''Bob'', ''15550002'', ''bob@x.org'', ''hours?'', ''2024-05-17'', ''09:30:00'',
          ''1'']]))"
  by code_simp


text \<open>
  Claim C3, amended.  A row contains the phone number when one of its cells is the
  number, a cell that a short row lacks counting as an empty cell.  Provided the calls to
  the spreadsheet service succeed:
  \<^item> if no row contains the phone number, a row with the new data and the count
    \<^verbatim>\<open>'1'\<close> is appended;
  \<^item> if some row contains it, the count of the first such row reads as an integer
    \<open>n\<close> and \<open>n + 1\<close> can be written within the interpreter's limit on numerals, the
    first seven cells of that row become the new name, the number, the email, the
    question, the date, the time and a count that reads as \<open>n + 1\<close>, the cells beyond
    the seventh stay, and so does every other row;
  \<^item> if the count of the first such row cannot be read as an integer, or the incremented
    count cannot be written, a row with the count \<^verbatim>\<open>'1'\<close> is appended and no row is
    changed.
\<close>

theorem store_customer_data_upsert:
  assumes "\<forall>k. \<not> sheet_fault e k"
  shows "((\<forall>row \<in> set sh. \<not> row_has sh row phone) \<longrightarrow>
            store_customer_data e (Some sh) name phone email question =
              (True, Some (sh @ [[name, phone, email, question, current_date e,
                                  current_time e, ''1'']]))) \<and>
         (\<forall>i n c. i < length sh \<longrightarrow> row_has sh (sh ! i) phone \<longrightarrow>
            (\<forall>j<i. \<not> row_has sh (sh ! j) phone) \<longrightarrow>
            py_int (max_str_digits e) (count_cell (sh ! i)) = Some n \<longrightarrow>
            py_str_int (max_str_digits e) (n + 1) = Some c \<longrightarrow>
            py_int (max_str_digits e) c = Some (n + 1) \<and>
            store_customer_data e (Some sh) name phone email question =
              (True, Some (sh[i := [name, phone, email, question, current_date e,
                                    current_time e, c] @ drop 7 (sh ! i)]))) \<and>
         (\<forall>i. i < length sh \<longrightarrow> row_has sh (sh ! i) phone \<longrightarrow>
            (\<forall>j<i. \<not> row_has sh (sh ! j) phone) \<longrightarrow>
            (py_int (max_str_digits e) (count_cell (sh ! i)) = None \<or>
             (\<exists>n. py_int (max_str_digits e) (count_cell (sh ! i)) = Some n \<and>
                  py_str_int (max_str_digits e) (n + 1) = None)) \<longrightarrow>
            store_customer_data e (Some sh) name phone email question =
              (True, Some (sh @ [[name, phone, email, question, current_date e,
                                  current_time e, ''1'']])))"
proof (intro conjI impI allI)
  assume "\<forall>row \<in> set sh. \<not> row_has sh row phone"
  with assms show "store_customer_data e (Some sh) name phone email question =
      (True, Some (sh @ [[name, phone, email, question, current_date e, current_time e,
                          ''1'']]))"
    by (rule store_absent)
next
  fix i n c
  assume i: "i < length sh" "row_has sh (sh ! i) phone" "\<forall>j<i. \<not> row_has sh (sh ! j) phone"
     and n: "py_int (max_str_digits e) (count_cell (sh ! i)) = Some n"
     and c: "py_str_int (max_str_digits e) (n + 1) = Some c"
  show "py_int (max_str_digits e) c = Some (n + 1)"
    using c by (rule py_int_py_str_int)
  from store_lookup_present [OF assms i, of name email question] n c
  show "store_customer_data e (Some sh) name phone email question =
      (True, Some (sh[i := [name, phone, email, question, current_date e, current_time e,
                            c] @ drop 7 (sh ! i)]))"
    by (simp add: store_customer_data_def)
next
  fix i
  assume i: "i < length sh" "row_has sh (sh ! i) phone" "\<forall>j<i. \<not> row_has sh (sh ! j) phone"
     and n: "py_int (max_str_digits e) (count_cell (sh ! i)) = None \<or>
             (\<exists>n. py_int (max_str_digits e) (count_cell (sh ! i)) = Some n \<and>
                  py_str_int (max_str_digits e) (n + 1) = None)"
  from n have "store_lookup e sh name phone email question = Inl 2"
    using store_lookup_present [OF assms i, of name email question] by auto
  with assms
  show "store_customer_data e (Some sh) name phone email question =
      (True, Some (sh @ [[name, phone, email, question, current_date e, current_time e,
                          ''1'']]))"
    by (simp add: store_customer_data_def append_row_def new_row_def)
qed


theorem store_customer_data_upsert_witness:
  "(\<forall>k. \<not> sheet_fault sample_env k) \<and>
   \<not> (\<exists>row \<in> set sample_sheet. row_has sample_sheet row ''15550003'') \<and>
   store_customer_data sample_env (Some sample_sheet) ''Cy'' ''15550003'' ''cy@x.org''
     ''order status'' =
     (True, Some (sample_sheet @
        [[''Cy'', ''15550003'', ''cy@x.org'', ''order status'', current_date sample_env,
          current_time sample_env, ''1'']])) \<and>
   1 < length sample_sheet \<and> row_has sample_sheet (sample_sheet ! 1) ''15550001'' \<and>
   \<not> (\<exists>j<1. row_has sample_sheet (sample_sheet ! j) ''15550001'') \<and>
   py_int (max_str_digits sample_env) (count_cell (sample_sheet ! 1)) = Some 3 \<and>
   py_str_int (max_str_digits sample_env) (3 + 1) = Some ''4'' \<and>
   py_int (max_str_digits sample_env) ''4'' = Some (3 + 1) \<and>
   store_customer_data sample_env (Some sample_sheet) ''Ann'' ''15550001'' ''ann@x.org''
     ''hours?'' =
     (True, Some (sample_sheet[1 := [''Ann'', ''15550001'', ''ann@x.org'', ''hours?'',
        current_date sample_env, current_time sample_env, ''4''] @
        drop 7 (sample_sheet ! 1)])) \<and>
   2 < length sample_sheet \<and> row_has sample_sheet (sample_sheet ! 2) ''15550002'' \<and>
   \<not> (\<exists>j<2. row_has sample_sheet (sample_sheet ! j) ''15550002'') \<and>
   py_int (max_str_digits sample_env) (count_cell (sample_sheet ! 2)) = None \<and>
   store_customer_data sample_env (Some sample_sheet) ''Bob'' ''15550002'' ''bob@x.org''
     ''hours?'' =
     (True, Some (sample_sheet @
        [[''Bob'', ''15550002'', ''bob@x.org'', ''hours?'', current_date sample_env,
          current_time sample_env, ''1'']]))"
proof -
  have nf: "\<forall>k. \<not> sheet_fault sample_env k" by (simp add: sample_env_def)
  have absent: "\<forall>row \<in> set sample_sheet. \<not> row_has sample_sheet row ''15550003''"
    by code_simp
  have a1: "1 < length sample_sheet" by (simp add: sample_sheet_def)
  have a2: "row_has sample_sheet (sample_sheet ! 1) ''15550001''" by code_simp
  have a3: "\<forall>j<1. \<not> row_has sample_sheet (sample_sheet ! j) ''15550001''"
  proof -
    have "\<not> row_has sample_sheet (sample_sheet ! 0) ''15550001''" by code_simp
    then show ?thesis by simp
  qed
  have a4: "py_int (max_str_digits sample_env) (count_cell (sample_sheet ! 1)) = Some 3"
    by code_simp
  have a5: "py_str_int (max_str_digits sample_env) (3 + 1) = Some ''4''" by code_simp
  have b1: "2 < length sample_sheet" by (simp add: sample_sheet_def)
  have b2: "row_has sample_sheet (sample_sheet ! 2) ''15550002''" by code_simp
  have b3: "\<forall>j<2. \<not> row_has sample_sheet (sample_sheet ! j) ''15550002''"
  proof -
    have "\<not> row_has sample_sheet (sample_sheet ! 0) ''15550002''" by code_simp
    moreover have "\<not> row_has sample_sheet (sample_sheet ! 1) ''15550002''" by code_simp
    ultimately show ?thesis by (simp add: less_Suc_eq eval_nat_numeral)
  qed
  have b4: "py_int (max_str_digits sample_env) (count_cell (sample_sheet ! 2)) = None"
    by code_simp
  have b4': "py_int (max_str_digits sample_env) (count_cell (sample_sheet ! 2)) = None \<or>
      (\<exists>n. py_int (max_str_digits sample_env) (count_cell (sample_sheet ! 2)) = Some n \<and>
           py_str_int (max_str_digits sample_env) (n + 1) = None)"
    using b4 by (rule disjI1)
  note new =
    store_customer_data_upsert
      [OF nf, of sample_sheet "''15550003''" "''Cy''" "''cy@x.org''" "''order status''",
       THEN conjunct1, THEN mp, OF absent]
  note seen =
    store_customer_data_upsert
      [OF nf, of sample_sheet "''15550001''" "''Ann''" "''ann@x.org''" "''hours?''",
       THEN conjunct2, THEN conjunct1, THEN spec, THEN spec, THEN spec, THEN mp, THEN mp,
       THEN mp, THEN mp, THEN mp, OF a1 a2 a3 a4 a5]
  note odd =
    store_customer_data_upsert
      [OF nf, of sample_sheet "''15550002''" "''Bob''" "''bob@x.org''" "''hours?''",
       THEN conjunct2, THEN conjunct2, THEN spec, THEN mp, THEN mp, THEN mp, THEN mp,
       OF b1 b2 b3 b4']
  have absent': "\<not> (\<exists>row \<in> set sample_sheet. row_has sample_sheet row ''15550003'')"
    using absent by simp
  have a3': "\<not> (\<exists>j<1. row_has sample_sheet (sample_sheet ! j) ''15550001'')"
    using a3 by simp
  have b3': "\<not> (\<exists>j<2. row_has sample_sheet (sample_sheet ! j) ''15550002'')"
    using b3 by simp
  show ?thesis
    by (intro conjI nf absent' new a1 a2 a3' a4 a5 seen [THEN conjunct1]
          seen [THEN conjunct2] b1 b2 b3' b4 odd)
qed

section \<open>Properties of the notification handler\<close>

lemma path_Key:
  "path d (Key k # rest) = Some r \<longleftrightarrow>
     (\<exists>items x. d = JObj items \<and> map_of items k = Some x \<and> path x rest = Some r)"
  by (cases d) (auto split: option.splits)

lemma path_First:
  "path d (First # rest) = Some r \<longleftrightarrow> (\<exists>x xs. d = JArr (x # xs) \<and> path x rest = Some r)"
proof (cases d)
  case (JArr xs)
  then show ?thesis by (cases xs) auto
qed auto

lemma py_get_Inr:
  "py_get d k dflt = Inr x \<longleftrightarrow> (\<exists>items. d = JObj items \<and> x = dict_get items k dflt)"
  by (cases d) (auto simp: py_get_def)

lemma py_item_Inr:
  "py_item d k = Inr x \<longleftrightarrow> (\<exists>items. d = JObj items \<and> map_of items k = Some x)"
  by (cases d) (auto simp: py_item_def split: option.splits)

lemma py_first_Inr:
  "py_first d = Inr x \<longleftrightarrow>
     (\<exists>xs. d = JArr (x # xs)) \<or> (\<exists>c cs. d = JStr (c # cs) \<and> x = JStr [c])"
  by (cases d) (auto simp: py_first_def split: list.splits)

lemma and_then_Inr:
  "and_then m f = Inr y \<longleftrightarrow> (\<exists>x. m = Inr x \<and> f x = Inr y)"
  by (cases m) (auto simp: and_then_def)

lemma and_then_simps [simp]:
  "and_then (Inl exn) f = Inl exn" "and_then (Inr x) f = f x"
  by (simp_all add: and_then_def)

lemma well_formed_structure:
  assumes "well_formed data"
  obtains items es eitems cs citems vitems ms m meta pid where
    "data = JObj items"
    "map_of items ''object'' = Some (JStr ''whatsapp_business_account'')"
    "map_of items ''entry'' = Some (JArr (JObj eitems # es))"
    "map_of eitems ''changes'' = Some (JArr (JObj citems # cs))"
    "map_of citems ''value'' = Some (JObj vitems)"
    "map_of vitems ''messages'' = Some (JArr (JObj m # ms))"
    "map_of vitems ''metadata'' = Some (JObj meta)"
    "map_of meta ''phone_number_id'' = Some pid"
    "contacts_ok (JObj vitems)"
    "text_ok (JObj m)"
proof -
  from assms obtain v message where
    obj: "path data [Key ''object''] = Some (JStr ''whatsapp_business_account'')"
    and v: "path data value_path = Some v"
    and meta: "path v [Key ''metadata'', Key ''phone_number_id''] \<noteq> None"
    and c: "contacts_ok v"
    and msg: "path v [Key ''messages'', First] = Some message"
    and t: "text_ok message"
    by (auto simp: well_formed_def split: option.splits)
  from meta obtain pid where pid: "path v [Key ''metadata'', Key ''phone_number_id''] = Some pid"
    by auto
  from t obtain m where m: "message = JObj m" by (cases message) (auto simp: text_ok_def)
  from v obtain items es eitems cs citems where
    s: "data = JObj items" "map_of items ''entry'' = Some (JArr (JObj eitems # es))"
       "map_of eitems ''changes'' = Some (JArr (JObj citems # cs))"
       "map_of citems ''value'' = Some v"
    unfolding value_path_def path_Key path_First by auto
  from pid obtain vitems meta where
    w: "v = JObj vitems" "map_of vitems ''metadata'' = Some (JObj meta)"
       "map_of meta ''phone_number_id'' = Some pid"
    unfolding path_Key by auto
  from msg m w(1) obtain ms where ms: "map_of vitems ''messages'' = Some (JArr (JObj m # ms))"
    unfolding path_Key path_First by auto
  from obj s(1) have o: "map_of items ''object'' = Some (JStr ''whatsapp_business_account'')"
    unfolding path_Key by auto
  show thesis
    using that [OF s(1) o s(2) s(3) s(4)[unfolded w(1)] ms w(2) w(3) c[unfolded w(1)] t[unfolded m]]
    .
qed

lemma is_notification_well_formed:
  assumes "well_formed data"
  shows "is_notification data = Inr True"
proof -
  from assms obtain items es eitems cs citems vitems ms m meta pid where
    "data = JObj items"
    "map_of items ''object'' = Some (JStr ''whatsapp_business_account'')"
    "map_of items ''entry'' = Some (JArr (JObj eitems # es))"
    "map_of eitems ''changes'' = Some (JArr (JObj citems # cs))"
    "map_of citems ''value'' = Some (JObj vitems)"
    "map_of vitems ''messages'' = Some (JArr (JObj m # ms))"
    by (rule well_formed_structure)
  then show ?thesis
    by (simp add: is_notification_def py_get_def py_item_def py_first_def first_entry_def
          first_change_def dict_get_def truthy_def)
qed

lemma contacts_ok_truthy:
  assumes "contacts_ok (JObj vitems)" "map_of vitems ''contacts'' = Some contacts"
      and "truthy contacts"
  obtains contact xs where "contacts = JArr (JObj contact # xs)"
    "map_of contact ''profile'' = None \<or>
     (\<exists>profile. map_of contact ''profile'' = Some (JObj profile))"
proof -
  from assms have ok: "case path contacts [First] of
             Some (JObj contact) \<Rightarrow>
               (case map_of contact ''profile'' of
                  None \<Rightarrow> True
                | Some (JObj profile) \<Rightarrow> True
                | Some _ \<Rightarrow> False)
           | _ \<Rightarrow> False"
    by (simp add: contacts_ok_def)
  then obtain first where first: "path contacts [First] = Some first"
    by (cases "path contacts [First]") auto
  then obtain xs where xs: "contacts = JArr (first # xs)"
    unfolding path_First by auto
  from ok first obtain contact where contact: "first = JObj contact"
    by (cases first) auto
  from ok first contact have "case map_of contact ''profile'' of
                  None \<Rightarrow> True
                | Some (JObj profile) \<Rightarrow> True
                | Some _ \<Rightarrow> False"
    by simp
  then have "map_of contact ''profile'' = None \<or>
     (\<exists>profile. map_of contact ''profile'' = Some (JObj profile))"
  proof (cases "map_of contact ''profile''")
    case (Some p)
    assume "case map_of contact ''profile'' of
                  None \<Rightarrow> True
                | Some (JObj profile) \<Rightarrow> True
                | Some _ \<Rightarrow> False"
    with Some show ?thesis by (cases p) auto
  qed simp
  with xs contact that show thesis by blast
qed

lemma contacts_name:
  assumes "contacts_ok (JObj vitems)"
  shows "\<exists>name.
     (if truthy (dict_get vitems ''contacts'' (JArr []))
      then and_then (and_then (py_first (dict_get vitems ''contacts'' (JArr [])))
                       (\<lambda>c. py_get c ''profile'' (JObj [])))
             (\<lambda>profile. py_get profile ''name'' from)
      else Inr (JStr ''Customer'')) = Inr name"
proof (cases "map_of vitems ''contacts''")
  case None
  then have "dict_get vitems ''contacts'' (JArr []) = JArr []" by (simp add: dict_get_def)
  then show ?thesis by (simp add: truthy_def)
next
  case (Some contacts)
  then have dg: "dict_get vitems ''contacts'' (JArr []) = contacts" by (simp add: dict_get_def)
  show ?thesis
  proof (cases "truthy contacts")
    case False
    with dg show ?thesis by simp
  next
    case True
    from contacts_ok_truthy [OF assms Some True] obtain contact xs where
      c: "contacts = JArr (JObj contact # xs)"
      and p: "map_of contact ''profile'' = None \<or>
              (\<exists>profile. map_of contact ''profile'' = Some (JObj profile))"
      by blast
    have first: "py_first contacts = Inr (JObj contact)" using c by (simp add: py_first_def)
    from p obtain profile where
      "py_get (JObj contact) ''profile'' (JObj []) = Inr (JObj profile)"
      by (auto simp: py_get_def dict_get_def)
    then show ?thesis
      using dg True first by (simp add: py_get_def)
  qed
qed

lemma extract_fields_well_formed:
  assumes "well_formed data"
  shows "\<exists>x. extract_fields data = Inr x \<and>
           Some (phone_number_id x) =
             path data (value_path @ [Key ''metadata'', Key ''phone_number_id'']) \<and>
           from_number x =
             (case path data (message_path @ [Key ''from'']) of None \<Rightarrow> JNull | Some f \<Rightarrow> f) \<and>
           message_type x =
             (case path data (message_path @ [Key ''type'']) of None \<Rightarrow> JNull | Some t \<Rightarrow> t) \<and>
           (\<forall>b. path data (message_path @ [Key ''text'', Key ''body'']) = Some b \<longrightarrow>
                message_text x = b)"
proof -
  from assms obtain items es eitems cs citems vitems ms m meta pid where
    s: "data = JObj items"
    "map_of items ''object'' = Some (JStr ''whatsapp_business_account'')"
    "map_of items ''entry'' = Some (JArr (JObj eitems # es))"
    "map_of eitems ''changes'' = Some (JArr (JObj citems # cs))"
    "map_of citems ''value'' = Some (JObj vitems)"
    "map_of vitems ''messages'' = Some (JArr (JObj m # ms))"
    "map_of vitems ''metadata'' = Some (JObj meta)"
    "map_of meta ''phone_number_id'' = Some pid"
    and c: "contacts_ok (JObj vitems)"
    and t: "text_ok (JObj m)"
    by (rule well_formed_structure)
  let ?from = "dict_get m ''from'' JNull"
  from contacts_name [OF c, of ?from] obtain name where
    name: "(if truthy (dict_get vitems ''contacts'' (JArr []))
            then and_then (and_then (py_first (dict_get vitems ''contacts'' (JArr [])))
                             (\<lambda>c. py_get c ''profile'' (JObj [])))
                   (\<lambda>profile. py_get profile ''name'' ?from)
            else Inr (JStr ''Customer'')) = Inr name"
    by blast
  from t consider "map_of m ''text'' = None"
    | tx where "map_of m ''text'' = Some (JObj tx)"
    by (auto simp: text_ok_def split: option.splits json.splits)
  then obtain body where
    body: "and_then (py_get (JObj m) ''text'' (JObj [])) (\<lambda>t. py_get t ''body'' (JStr []))
             = Inr body"
      "\<forall>b. path (JObj m) [Key ''text'', Key ''body''] = Some b \<longrightarrow> body = b"
    by cases (auto simp: py_get_def dict_get_def split: option.splits)
  have "extract_fields data =
      Inr \<lparr>phone_number_id = pid, from_number = ?from, message_text = body,
           customer_name = name, message_type = dict_get m ''type'' JNull\<rparr>"
    using s name body(1)
    by (simp add: extract_fields_def first_entry_def py_item_def py_first_def py_get_def)
  moreover have "path data (value_path @ [Key ''metadata'', Key ''phone_number_id'']) = Some pid"
    using s by (simp add: value_path_def)
  moreover have "\<And>k rest. path data (message_path @ (Key k # rest)) =
      (case map_of m k of None \<Rightarrow> None | Some x \<Rightarrow> path x rest)"
    using s by (simp add: message_path_def value_path_def)
  ultimately show ?thesis
    using body(2) by (auto simp: dict_get_def split: option.splits)
qed

lemma py_get_JObj [simp]: "py_get (JObj items) k dflt = Inr (dict_get items k dflt)"
  by (simp add: py_get_def)

lemma is_notification_structure:
  assumes "is_notification data = Inr True"
  shows "path data [Key ''object''] = Some (JStr ''whatsapp_business_account'') \<and>
         (\<exists>entries. path data [Key ''entry''] = Some entries) \<and>
         (\<exists>changes. path data [Key ''entry'', First, Key ''changes''] = Some changes) \<and>
         (\<exists>messages. path data (value_path @ [Key ''messages'']) = Some messages)"
proof -
  from assms obtain items where d: "data = JObj items"
    by (cases data) (auto simp: is_notification_def py_get_def)
  from assms d have o: "dict_get items ''object'' JNull = JStr ''whatsapp_business_account''"
    by (auto simp: is_notification_def py_get_def split: if_splits)
  then have o': "map_of items ''object'' = Some (JStr ''whatsapp_business_account'')"
    by (auto simp: dict_get_def split: option.splits)
  from assms d o have e: "truthy (dict_get items ''entry'' JNull)"
    by (auto simp: is_notification_def py_get_def split: if_splits)
  then obtain entries where en: "map_of items ''entry'' = Some entries" "truthy entries"
    by (auto simp: dict_get_def truthy_def split: option.splits)
  then have dg: "dict_get items ''entry'' JNull = entries" by (simp add: dict_get_def)
  have fe: "first_entry (JObj items) = py_first entries"
    using d en by (simp add: first_entry_def py_item_def)
  from assms d o dg en(2) fe have r1:
    "and_then (py_first entries) (\<lambda>entry.
       and_then (py_get entry ''changes'' JNull) (\<lambda>changes.
         if \<not> truthy changes then Inr False else
         and_then (first_change (JObj items)) (\<lambda>change.
         and_then (py_get change ''value'' (JObj [])) (\<lambda>v.
         and_then (py_get v ''messages'' JNull) (\<lambda>messages.
           Inr (truthy messages)))))) = Inr True"
    by (simp add: is_notification_def)
  then obtain entry where entry: "py_first entries = Inr entry"
    and r2: "and_then (py_get entry ''changes'' JNull) (\<lambda>changes.
         if \<not> truthy changes then Inr False else
         and_then (first_change (JObj items)) (\<lambda>change.
         and_then (py_get change ''value'' (JObj [])) (\<lambda>v.
         and_then (py_get v ''messages'' JNull) (\<lambda>messages.
           Inr (truthy messages))))) = Inr True"
    unfolding and_then_Inr [of "py_first entries"] by blast
  from r2 obtain eitems where ei: "entry = JObj eitems"
    by (cases entry) (auto simp: py_get_def)
  with entry obtain es where es: "entries = JArr (JObj eitems # es)"
    unfolding py_first_Inr by auto
  from r2 ei have ch: "truthy (dict_get eitems ''changes'' JNull)"
    by (auto simp: py_get_def split: if_splits)
  then obtain changes where cg: "map_of eitems ''changes'' = Some changes" "truthy changes"
    by (auto simp: dict_get_def truthy_def split: option.splits)
  then have dc: "dict_get eitems ''changes'' JNull = changes" by (simp add: dict_get_def)
  have fc: "first_change (JObj items) = py_first changes"
    using fe es cg by (simp add: first_change_def py_first_def py_item_def)
  from r2 ei dc cg(2) fc have r3:
    "and_then (py_first changes) (\<lambda>change.
         and_then (py_get change ''value'' (JObj [])) (\<lambda>v.
         and_then (py_get v ''messages'' JNull) (\<lambda>messages.
           Inr (truthy messages)))) = Inr True"
    by simp
  then obtain change where change: "py_first changes = Inr change"
    and r4: "and_then (py_get change ''value'' (JObj [])) (\<lambda>v.
         and_then (py_get v ''messages'' JNull) (\<lambda>messages.
           Inr (truthy messages))) = Inr True"
    unfolding and_then_Inr [of "py_first changes"] by blast
  from r4 obtain citems where ci: "change = JObj citems"
    by (cases change) (auto simp: py_get_def)
  with change obtain cs where cs: "changes = JArr (JObj citems # cs)"
    unfolding py_first_Inr by auto
  from r4 ci have r5: "and_then (py_get (dict_get citems ''value'' (JObj [])) ''messages'' JNull)
      (\<lambda>messages. Inr (truthy messages)) = Inr True"
    by (simp add: py_get_def)
  then obtain vitems where vi: "dict_get citems ''value'' (JObj []) = JObj vitems"
    by (cases "dict_get citems ''value'' (JObj [])") (auto simp: py_get_def)
  with r5 have tm: "truthy (dict_get vitems ''messages'' JNull)" by (simp add: py_get_def)
  then obtain messages where ms: "map_of vitems ''messages'' = Some messages"
    by (auto simp: dict_get_def truthy_def split: option.splits)
  with vi have v: "map_of citems ''value'' = Some (JObj vitems)"
    by (auto simp: dict_get_def split: option.splits)
  show ?thesis
    using d o' en(1) es cg(1) cs v ms by (simp add: value_path_def)
qed

lemma mismatch_not_notification:
  assumes "mismatch data" "is_notification data = Inr b"
  shows "\<not> b"
proof
  assume b
  with assms(2) have "is_notification data = Inr True" by simp
  from is_notification_structure [OF this] assms(1) show False
    by (auto simp: mismatch_def)
qed

lemma handle_body_unmatched:
  assumes "is_notification data = Inr False"
  shows "handle_body e cfg sh (Inr data) = (Inr None, sh, [])"
  using assms by (simp add: handle_body_def)

lemma handle_body_matched:
  assumes "is_notification data = Inr True" "extract_fields data = Inr x"
  shows "handle_body e cfg sh (Inr data) =
           (if message_type x \<noteq> JStr ''text''
            then (Inr (Some (Status ''ignored'', 200)), sh, [])
            else process_text e cfg sh x)"
  using assms by (simp add: handle_body_def map_result_def)

lemma handle_body_raised:
  assumes "fst (handle_body e cfg sh req) = Inl exn"
  shows "handle_body e cfg sh req = (Inl exn, sh, [])"
proof (cases "and_then req (\<lambda>data.
             and_then (is_notification data) (\<lambda>matches.
               if matches then map_result Some (extract_fields data) else Inr None))")
  case (Inl a)
  with assms show ?thesis by (simp add: handle_body_def)
next
  case (Inr r)
  show ?thesis
  proof (cases r)
    case None
    with Inr assms show ?thesis by (simp add: handle_body_def)
  next
    case (Some x)
    show ?thesis
    proof (cases "message_type x \<noteq> JStr ''text''")
      case True
      with Inr Some assms show ?thesis by (simp add: handle_body_def)
    next
      case False
      with Inr Some have hb: "handle_body e cfg sh req = process_text e cfg sh x"
        by (simp add: handle_body_def)
      show ?thesis
      proof (cases "message_text x")
        case (JStr body)
        with hb assms show ?thesis
          by (simp add: process_text_def Let_def split: prod.splits)
      qed (use hb assms in \<open>simp_all add: process_text_def\<close>)
    qed
  qed
qed

lemma process_text_requests:
  "snd (snd (process_text e cfg sh x)) = [] \<or>
   (\<exists>a b m. snd (snd (process_text e cfg sh x)) = [SendPost a b m]) \<or>
   (\<exists>p a b m. snd (snd (process_text e cfg sh x)) = [HostedPost p, SendPost a b m])"
proof (cases "message_text x")
  case (JStr body)
  let ?name = "render e (customer_name x)"
  obtain reply posts where ai: "get_ai_response e cfg body ?name = (reply, posts)"
    by (cases "get_ai_response e cfg body ?name") auto
  with ai_events [of e cfg body ?name] have
    posts: "posts = [] \<or> posts = [HostedPost (make_prompt body ?name)]"
    by (auto split: if_splits)
  have "snd (snd (process_text e cfg sh x)) =
      posts @ [SendPost (phone_number_id x) (from_number x) reply]"
    using JStr ai
    by (simp add: process_text_def Let_def send_whatsapp_message_def
          split: prod.splits sum.splits)
  with posts show ?thesis by auto
qed (simp_all add: process_text_def)

lemma handle_body_requests:
  "snd (snd (handle_body e cfg sh req)) = [] \<or>
   (\<exists>a b m. snd (snd (handle_body e cfg sh req)) = [SendPost a b m]) \<or>
   (\<exists>p a b m. snd (snd (handle_body e cfg sh req)) = [HostedPost p, SendPost a b m])"
proof (cases "and_then req (\<lambda>data.
             and_then (is_notification data) (\<lambda>matches.
               if matches then map_result Some (extract_fields data) else Inr None))")
  case (Inl a)
  then show ?thesis by (simp add: handle_body_def)
next
  case (Inr r)
  show ?thesis
  proof (cases r)
    case None
    with Inr show ?thesis by (simp add: handle_body_def)
  next
    case (Some x)
    show ?thesis
    proof (cases "message_type x \<noteq> JStr ''text''")
      case True
      with Inr Some show ?thesis by (simp add: handle_body_def)
    next
      case False
      with Inr Some have "handle_body e cfg sh req = process_text e cfg sh x"
        by (simp add: handle_body_def)
      with process_text_requests [of e cfg sh x] show ?thesis by simp
    qed
  qed
qed

lemma requests_handle_message:
  "requests (handle_message e cfg sh req) = snd (snd (handle_body e cfg sh req))"
  by (cases "handle_body e cfg sh req" rule: prod_cases3)
     (simp add: handle_message_def split: sum.splits)


lemma handle_body_exception_origin:
  assumes "fst (handle_body e cfg sh req) = Inl exn"
  shows "req = Inl exn \<or>
         (\<exists>data. req = Inr data \<and>
            (is_notification data = Inl exn \<or>
             is_notification data = Inr True \<and>
               (extract_fields data = Inl exn \<or>
                (\<exists>x. extract_fields data = Inr x \<and> message_type x = JStr ''text'' \<and>
                     (\<forall>b. message_text x \<noteq> JStr b) \<and> exn = TypeError))))"
proof (cases req)
  case (Inl a)
  with assms show ?thesis by (simp add: handle_body_def)
next
  case (Inr data)
  note req = this
  show ?thesis
  proof (cases "is_notification data")
    case (Inl a)
    with assms req show ?thesis by (simp add: handle_body_def)
  next
    case (Inr matches)
    note isn = this
    show ?thesis
    proof (cases matches)
      case False
      with assms req isn show ?thesis by (simp add: handle_body_def)
    next
      case True
      note m = this
      show ?thesis
      proof (cases "extract_fields data")
        case (Inl a)
        with assms req isn m show ?thesis by (simp add: handle_body_def)
      next
        case (Inr x)
        note ex = this
        show ?thesis
        proof (cases "message_type x \<noteq> JStr ''text''")
          case True
          with assms req isn m ex show ?thesis by (simp add: handle_body_def)
        next
          case False
          with req isn m ex
          have hb: "handle_body e cfg sh req = process_text e cfg sh x"
            by (simp add: handle_body_def)
          show ?thesis
          proof (cases "\<exists>b. message_text x = JStr b")
            case True
            then obtain b where "message_text x = JStr b" by blast
            with hb assms show ?thesis
              by (simp add: process_text_def Let_def split: prod.splits)
          next
            case nostr: False
            then have "process_text e cfg sh x = (Inl TypeError, sh, [])"
              by (cases "message_text x") (simp_all add: process_text_def)
            with hb assms have "exn = TypeError" by simp
            with req isn m ex False nostr show ?thesis by simp
          qed
        qed
      qed
    qed
  qed
qed

text \<open>
  Claim C8, as stated: whenever a step of the processing raises, the handler answers with
  status 500, and no step is retried and nothing is recovered.  The three functions the
  handler calls catch what is raised inside them.  In the run below a customer writes for
  the first time; the lookup finds no row, the \<^verbatim>\<open>append_row\<close> that follows is the second
  call to the spreadsheet service and raises, so the inner \<^verbatim>\<open>try\<close> of
  \<^verbatim>\<open>store_customer_data\<close> ends in an exception after two calls.  The bare \<^verbatim>\<open>except\<close>
  issues the \<^verbatim>\<open>append_row\<close> again, the row is stored, and the handler answers
  \<^verbatim>\<open>{'status': 'success'}\<close> with status 200.
\<close>

theorem handle_message_recovery_counterexample:
  "sheet_fault flaky_env 1 \<and>
   store_lookup flaky_env sample_sheet ''Ann'' ''15550003'' ''Not provided'' ''hello'' = Inl 2 \<and>
   handle_message flaky_env default_config (Some sample_sheet)
       (Inr (sample_notification sample_value sample_new_text)) =
     \<lparr>returned = Some (Status ''success'', 200),
      sheet_after = Some (sample_sheet @
        [[''Ann'', ''15550003'', ''Not provided'', ''hello'', ''2024-05-17'', ''09:30:00'',
          ''1'']]),
      requests =
        [SendPost (JStr ''1061'') (JStr ''15550003'')
           ''Hello Ann! Welcome to Your Business. How can I help you today?'']\<rparr>"
  by code_simp

text \<open>
  Claim C8, amended.  The exceptions that reach the handler's own \<^verbatim>\<open>except\<close> are those
  raised outside the three calls: by reading the body, by the test of its shape, by the
  extraction of the fields and by \<^verbatim>\<open>extract_email\<close>.  When the run of the handler's
  \<^verbatim>\<open>try\<close> ends in such an exception, the handler returns the error body made from that
  exception with status 500, and this is the only way in which it returns status 500 with
  an error body.  Nothing has been done by then, so nothing is retried or recovered: the
  sheet is as it was and no request has been sent.  In every run the handler sends at most
  one request to the hosted model and at most one to the messaging platform.  The last
  part of the statement lists where the exception of such a run comes from: the reading
  of the body, the test of the shape, the extraction of the fields, or a message body
  that is not a string, which \<^verbatim>\<open>extract_email\<close> refuses.
\<close>

theorem handle_message_exception:
  "(fst (handle_body e cfg sh req) = Inl exn \<longrightarrow>
      handle_message e cfg sh req =
        \<lparr>returned = Some (Error exn, 500), sheet_after = sh, requests = []\<rparr>) \<and>
   (returned (handle_message e cfg sh req) = Some (Error exn, 500) \<longrightarrow>
      fst (handle_body e cfg sh req) = Inl exn) \<and>
   (requests (handle_message e cfg sh req) = [] \<or>
    (\<exists>a b m. requests (handle_message e cfg sh req) = [SendPost a b m]) \<or>
    (\<exists>p a b m. requests (handle_message e cfg sh req) = [HostedPost p, SendPost a b m])) \<and>
   (fst (handle_body e cfg sh req) = Inl exn \<longrightarrow>
      req = Inl exn \<or>
      (\<exists>data. req = Inr data \<and>
         (is_notification data = Inl exn \<or>
          is_notification data = Inr True \<and>
            (extract_fields data = Inl exn \<or>
             (\<exists>x. extract_fields data = Inr x \<and> message_type x = JStr ''text'' \<and>
                  (\<forall>b. message_text x \<noteq> JStr b) \<and> exn = TypeError)))))"
proof (intro conjI impI)
  assume "fst (handle_body e cfg sh req) = Inl exn"
  then have "handle_body e cfg sh req = (Inl exn, sh, [])" by (rule handle_body_raised)
  then show "handle_message e cfg sh req =
      \<lparr>returned = Some (Error exn, 500), sheet_after = sh, requests = []\<rparr>"
    by (simp add: handle_message_def)
next
  assume r: "returned (handle_message e cfg sh req) = Some (Error exn, 500)"
  obtain res sh' evs where hb: "handle_body e cfg sh req = (res, sh', evs)"
    by (cases "handle_body e cfg sh req" rule: prod_cases3)
  show "fst (handle_body e cfg sh req) = Inl exn"
  proof (cases res)
    case (Inl a)
    with hb r show ?thesis by (simp add: handle_message_def)
  next
    case (Inr v)
    with hb r have v: "v = Some (Error exn, 500)" by (simp add: handle_message_def)
    have False
    proof (cases "and_then req (\<lambda>data.
             and_then (is_notification data) (\<lambda>matches.
               if matches then map_result Some (extract_fields data) else Inr None))")
      case (Inl a)
      with hb Inr show False by (simp add: handle_body_def)
    next
      case Inr2: (Inr r)
      show False
      proof (cases r)
        case None
        with Inr2 hb Inr v show False by (simp add: handle_body_def)
      next
        case (Some x)
        show False
        proof (cases "message_type x \<noteq> JStr ''text''")
          case True
          with Inr2 Some hb Inr v show False by (simp add: handle_body_def)
        next
          case False
          with Inr2 Some hb have pt: "process_text e cfg sh x = (res, sh', evs)"
            by (simp add: handle_body_def)
          show False
          proof (cases "message_text x")
            case (JStr body)
            with pt Inr v show False
              by (simp add: process_text_def Let_def split: prod.splits)
          qed (use pt Inr in \<open>simp_all add: process_text_def\<close>)
        qed
      qed
    qed
    then show ?thesis ..
  qed
next
  show "requests (handle_message e cfg sh req) = [] \<or>
    (\<exists>a b m. requests (handle_message e cfg sh req) = [SendPost a b m]) \<or>
    (\<exists>p a b m. requests (handle_message e cfg sh req) = [HostedPost p, SendPost a b m])"
    using handle_body_requests [of e cfg sh req] by (simp add: requests_handle_message)
next
  assume "fst (handle_body e cfg sh req) = Inl exn"
  then show "req = Inl exn \<or>
      (\<exists>data. req = Inr data \<and>
         (is_notification data = Inl exn \<or>
          is_notification data = Inr True \<and>
            (extract_fields data = Inl exn \<or>
             (\<exists>x. extract_fields data = Inr x \<and> message_type x = JStr ''text'' \<and>
                  (\<forall>b. message_text x \<noteq> JStr b) \<and> exn = TypeError))))"
    by (rule handle_body_exception_origin)
qed

theorem handle_message_exception_witness:
  "fst (handle_body failing_env default_config None (Inl BadRequest)) = Inl BadRequest \<and>
   handle_message failing_env default_config None (Inl BadRequest) =
     \<lparr>returned = Some (Error BadRequest, 500), sheet_after = None, requests = []\<rparr> \<and>
   fst (handle_body sample_env default_config (Some sample_sheet)
          (Inr (sample_notification [] sample_text))) = Inl KeyError \<and>
   handle_message sample_env default_config (Some sample_sheet)
       (Inr (sample_notification [] sample_text)) =
     \<lparr>returned = Some (Error KeyError, 500), sheet_after = Some sample_sheet,
      requests = []\<rparr> \<and>
   returned (handle_message sample_env default_config (Some sample_sheet)
       (Inr (sample_notification [] sample_text))) = Some (Error KeyError, 500)"
proof -
  have h1: "fst (handle_body failing_env default_config None (Inl BadRequest)) = Inl BadRequest"
    by (simp add: handle_body_def)
  have h2: "fst (handle_body sample_env default_config (Some sample_sheet)
          (Inr (sample_notification [] sample_text))) = Inl KeyError"
    by code_simp
  note r1 =
    handle_message_exception
      [of failing_env default_config None "Inl BadRequest" BadRequest,
       THEN conjunct1, THEN mp, OF h1]
  note r2 =
    handle_message_exception
      [of sample_env default_config "Some sample_sheet"
          "Inr (sample_notification [] sample_text)" KeyError,
       THEN conjunct1, THEN mp, OF h2]
  have h3: "returned (handle_message sample_env default_config (Some sample_sheet)
       (Inr (sample_notification [] sample_text))) = Some (Error KeyError, 500)"
    by (simp add: r2)
  note r3 =
    handle_message_exception
      [of sample_env default_config "Some sample_sheet"
          "Inr (sample_notification [] sample_text)" KeyError,
       THEN conjunct2, THEN conjunct1, THEN mp, OF h3]
  show ?thesis by (intro conjI h1 r1 r3 r2 h3)
qed


text \<open>
  Claim C9.  For a well-formed notification of type \<^verbatim>\<open>'text'\<close> whose body is a string,
  the handler returns \<^verbatim>\<open>{'status': 'success'}\<close> with status 200 in every environment and
  for every state of the ledger, so whatever the store and the send return; and the reply
  is generated and sent: the requests of the run are those of the reply generator,
  followed by one send-message request that carries the generated reply to the sender.
\<close>

theorem handle_message_text_success:
  assumes "well_formed data"
      and "path data (message_path @ [Key ''type'']) = Some (JStr ''text'')"
      and "path data (message_path @ [Key ''text'', Key ''body'']) = Some (JStr msg)"
  shows "returned (handle_message e cfg sh (Inr data)) = Some (Status ''success'', 200) \<and>
         (\<exists>name pid.
            path data (value_path @ [Key ''metadata'', Key ''phone_number_id'']) = Some pid \<and>
            requests (handle_message e cfg sh (Inr data)) =
              snd (get_ai_response e cfg msg name) @
              [SendPost pid
                 (case path data (message_path @ [Key ''from'']) of
                    None \<Rightarrow> JNull | Some f \<Rightarrow> f)
                 (fst (get_ai_response e cfg msg name))])"
proof -
  let ?from = "case path data (message_path @ [Key ''from'']) of None \<Rightarrow> JNull | Some f \<Rightarrow> f"
  from extract_fields_well_formed [OF assms(1)] obtain x where
    x: "extract_fields data = Inr x"
    and pid: "Some (phone_number_id x) =
                path data (value_path @ [Key ''metadata'', Key ''phone_number_id''])"
    and fr: "from_number x = ?from"
    and ty: "message_type x =
               (case path data (message_path @ [Key ''type'']) of None \<Rightarrow> JNull | Some t \<Rightarrow> t)"
    and bd: "\<forall>b. path data (message_path @ [Key ''text'', Key ''body'']) = Some b \<longrightarrow>
               message_text x = b"
    by blast
  from ty assms(2) have ty': "message_type x = JStr ''text''" by simp
  from bd assms(3) have bd': "message_text x = JStr msg" by simp
  let ?name = "render e (customer_name x)"
  have hb: "handle_body e cfg sh (Inr data) = process_text e cfg sh x"
    using handle_body_matched [OF is_notification_well_formed [OF assms(1)] x, of e cfg sh] ty'
    by simp
  obtain stored sheet' where st:
    "store_any e sh (customer_name x) (from_number x) (extract_email msg) msg = (stored, sheet')"
    by (cases "store_any e sh (customer_name x) (from_number x) (extract_email msg) msg") auto
  obtain reply posts where ai: "get_ai_response e cfg msg ?name = (reply, posts)"
    by (cases "get_ai_response e cfg msg ?name") auto
  have "process_text e cfg sh x =
      (Inr (Some (Status ''success'', 200)), sheet',
       posts @ [SendPost (phone_number_id x) (from_number x) reply])"
    using bd' st ai
    by (simp add: process_text_def Let_def send_whatsapp_message_def split: sum.splits)
  with hb have hm: "handle_message e cfg sh (Inr data) =
      \<lparr>returned = Some (Status ''success'', 200), sheet_after = sheet',
       requests = posts @ [SendPost (phone_number_id x) (from_number x) reply]\<rparr>"
    by (simp add: handle_message_def)
  have "requests (handle_message e cfg sh (Inr data)) =
      snd (get_ai_response e cfg msg ?name) @
      [SendPost (phone_number_id x) ?from (fst (get_ai_response e cfg msg ?name))]"
    using hm ai fr by simp
  with pid hm show ?thesis by (intro conjI exI [of _ ?name] exI [of _ "phone_number_id x"]) simp_all
qed


theorem handle_message_text_success_witness:
  "well_formed (sample_notification sample_value sample_text) \<and>
   path (sample_notification sample_value sample_text) (message_path @ [Key ''type''])
     = Some (JStr ''text'') \<and>
   path (sample_notification sample_value sample_text)
     (message_path @ [Key ''text'', Key ''body''])
     = Some (JStr ''hello, my mail is ann@x.org'') \<and>
   fst (store_customer_data failing_env None ''Ann'' ''15550001'' ''ann@x.org''
          ''hello, my mail is ann@x.org'') = False \<and>
   returned (handle_message failing_env default_config None
               (Inr (sample_notification sample_value sample_text)))
     = Some (Status ''success'', 200) \<and>
   (\<exists>name pid.
      path (sample_notification sample_value sample_text)
        (value_path @ [Key ''metadata'', Key ''phone_number_id'']) = Some pid \<and>
      requests (handle_message failing_env default_config None
                  (Inr (sample_notification sample_value sample_text))) =
        snd (get_ai_response failing_env default_config ''hello, my mail is ann@x.org'' name) @
        [SendPost pid
           (case path (sample_notification sample_value sample_text)
                   (message_path @ [Key ''from'']) of
              None \<Rightarrow> JNull | Some f \<Rightarrow> f)
           (fst (get_ai_response failing_env default_config
                   ''hello, my mail is ann@x.org'' name))])"
proof -
  have wf: "well_formed (sample_notification sample_value sample_text)" by code_simp
  have ty: "path (sample_notification sample_value sample_text) (message_path @ [Key ''type''])
     = Some (JStr ''text'')"
    by code_simp
  have bd: "path (sample_notification sample_value sample_text)
     (message_path @ [Key ''text'', Key ''body''])
     = Some (JStr ''hello, my mail is ann@x.org'')"
    by code_simp
  have st: "fst (store_customer_data failing_env None ''Ann'' ''15550001'' ''ann@x.org''
          ''hello, my mail is ann@x.org'') = False"
    by (simp add: store_customer_data_def)
  note ok = handle_message_text_success [OF wf ty bd, of failing_env default_config None]
  show ?thesis by (intro conjI wf ty bd st ok [THEN conjunct1] ok [THEN conjunct2])
qed


text \<open>
  Claim C10.  When the body does not match the expected shape and the run raises no
  exception, the handler returns nothing, touches nothing and sends nothing.  A
  well-formed notification whose message type is not \<^verbatim>\<open>'text'\<close> is answered with
  \<^verbatim>\<open>{'status': 'ignored'}\<close> and status 200, and likewise nothing is stored or sent.
\<close>

theorem handle_message_unmatched:
  "(mismatch data \<longrightarrow> fst (handle_body e cfg sh (Inr data)) = Inr r \<longrightarrow>
      handle_message e cfg sh (Inr data) =
        \<lparr>returned = None, sheet_after = sh, requests = []\<rparr>) \<and>
   (well_formed data \<longrightarrow>
    path data (message_path @ [Key ''type'']) \<noteq> Some (JStr ''text'') \<longrightarrow>
      handle_message e cfg sh (Inr data) =
        \<lparr>returned = Some (Status ''ignored'', 200), sheet_after = sh, requests = []\<rparr>)"
proof (intro conjI impI)
  assume mm: "mismatch data" and run: "fst (handle_body e cfg sh (Inr data)) = Inr r"
  have "is_notification data = Inr False"
  proof (cases "is_notification data")
    case (Inl exn)
    then have "handle_body e cfg sh (Inr data) = (Inl exn, sh, [])"
      by (simp add: handle_body_def)
    with run show ?thesis by simp
  next
    case (Inr b)
    with mismatch_not_notification [OF mm Inr] show ?thesis by simp
  qed
  then have "handle_body e cfg sh (Inr data) = (Inr None, sh, [])"
    by (rule handle_body_unmatched)
  then show "handle_message e cfg sh (Inr data) =
      \<lparr>returned = None, sheet_after = sh, requests = []\<rparr>"
    by (simp add: handle_message_def)
next
  assume wf: "well_formed data"
     and ty: "path data (message_path @ [Key ''type'']) \<noteq> Some (JStr ''text'')"
  from extract_fields_well_formed [OF wf] obtain x where
    x: "extract_fields data = Inr x"
    and t: "message_type x =
               (case path data (message_path @ [Key ''type'']) of None \<Rightarrow> JNull | Some t \<Rightarrow> t)"
    by blast
  from t ty have "message_type x \<noteq> JStr ''text''" by (auto split: option.splits)
  with handle_body_matched [OF is_notification_well_formed [OF wf] x, of e cfg sh]
  have "handle_body e cfg sh (Inr data) = (Inr (Some (Status ''ignored'', 200)), sh, [])"
    by simp
  then show "handle_message e cfg sh (Inr data) =
      \<lparr>returned = Some (Status ''ignored'', 200), sheet_after = sh, requests = []\<rparr>"
    by (simp add: handle_message_def)
qed

theorem handle_message_unmatched_witness:
  "mismatch (JObj [(''object'', JStr ''page'')]) \<and>
   fst (handle_body sample_env default_config (Some sample_sheet)
          (Inr (JObj [(''object'', JStr ''page'')]))) = Inr None \<and>
   handle_message sample_env default_config (Some sample_sheet)
       (Inr (JObj [(''object'', JStr ''page'')])) =
     \<lparr>returned = None, sheet_after = Some sample_sheet, requests = []\<rparr> \<and>
   well_formed (sample_notification sample_value sample_image) \<and>
   path (sample_notification sample_value sample_image) (message_path @ [Key ''type''])
     \<noteq> Some (JStr ''text'') \<and>
   handle_message sample_env default_config (Some sample_sheet)
       (Inr (sample_notification sample_value sample_image)) =
     \<lparr>returned = Some (Status ''ignored'', 200), sheet_after = Some sample_sheet,
      requests = []\<rparr>"
proof -
  have mm: "mismatch (JObj [(''object'', JStr ''page'')])" by code_simp
  have run: "fst (handle_body sample_env default_config (Some sample_sheet)
          (Inr (JObj [(''object'', JStr ''page'')]))) = Inr None"
    by code_simp
  have wf: "well_formed (sample_notification sample_value sample_image)" by code_simp
  have ty: "path (sample_notification sample_value sample_image) (message_path @ [Key ''type''])
     \<noteq> Some (JStr ''text'')"
    by code_simp
  note r1 =
    handle_message_unmatched
      [of "JObj [(''object'', JStr ''page'')]" sample_env default_config "Some sample_sheet" None,
       THEN conjunct1, THEN mp, THEN mp, OF mm run]
  note r2 =
    handle_message_unmatched
      [of "sample_notification sample_value sample_image" sample_env default_config
          "Some sample_sheet",
       THEN conjunct2, THEN mp, THEN mp, OF wf ty]
  show ?thesis by (intro conjI mm run r1 wf ty r2)
qed

end
